theory Spec2Isabelle
  imports Main "HOL-Library.Multiset"
begin



section \<open>Transaction history: the impact derivation engine\<close>

subsection \<open>Data model\<close>

text \<open>
  The objects read by the history module. An input carries the index of the previous
  output it spends; an output carries its value in satoshis and, once the wallet has
  decoded it, its address (the field is absent, or the empty string, when no address is
  known). Satoshi amounts and block heights are integers (the amounts are the spec's
  int64 satoshis); the arithmetic on amounts is that of JavaScript numbers, given below.
\<close>

type_synonym byte = nat

record Input =
  in_script :: "byte list"
  in_hash :: "byte list"
  in_index :: nat
  in_sequence :: nat

record Output =
  out_script :: "byte list"
  out_value :: int
  out_address :: "string option"

record Transaction =
  tx_version :: int
  tx_locktime :: int
  tx_ins :: "Input list"
  tx_outs :: "Output list"

record TransactionInfo =
  info_tx :: Transaction
  info_id :: string
  info_height :: "int option"
  info_timestamp :: "int option"
  info_inputIds :: "string list"

datatype TransactionImpactType = incoming | outgoing | internal

record TransactionImpact =
  imp_id :: string
  imp_height :: "int option"
  imp_timestamp :: "int option"
  imp_type :: TransactionImpactType
  imp_value :: int
  imp_balance :: int
  imp_targets :: "Output list"

subsection \<open>Arithmetic on amounts\<close>


fun bitLength :: "nat \<Rightarrow> nat" where
  "bitLength n = (if n = 0 then 0 else Suc (bitLength (n div 2)))"

declare bitLength.simps [simp del]

definition roundDouble :: "int \<Rightarrow> int" where
  "roundDouble x =
     (if \<bar>x\<bar> \<le> 9007199254740992 then x
      else
        (let m = nat \<bar>x\<bar>;
             ulp = 2 ^ (bitLength m - 53);
             q = m div ulp;
             r = m mod ulp;
             up = (ulp < 2 * r \<or> (2 * r = ulp \<and> odd q));
             y = int ((if up then q + 1 else q) * ulp)
         in if x < 0 then - y else y))"

definition plus_double :: "int \<Rightarrow> int \<Rightarrow> int" where
  "plus_double a b = roundDouble (a + b)"

definition minus_double :: "int \<Rightarrow> int \<Rightarrow> int" where
  "minus_double a b = roundDouble (a - b)"

text \<open>
  A chain is used through \<open>chainContainsAddress\<close> only, so it is its membership test.
  The transaction map is used through its two methods: \<open>map\<close> walks the stored
  transaction infos, and \<open>getOutput\<close> resolves a transaction id (undefined when
  \<open>inputIds\<close> is too short) and an output index to an output, or to nothing. Both
  classes live outside the two source files, so they are parameters of the model.
\<close>

type_synonym Chain = "string \<Rightarrow> bool"

record TransactionMap =
  tm_infos :: "TransactionInfo list"
  tm_getOutput :: "string option \<Rightarrow> nat \<Rightarrow> Output option"

definition chainContainsAddress :: "Chain \<Rightarrow> string \<Rightarrow> bool" where
  "chainContainsAddress chain a = chain a"

subsection \<open>analyzeTransaction\<close>

text \<open>\<open>o.address && chainContainsAddress(chain, o.address)\<close>: an absent or empty
  address is falsy.\<close>

definition ownedBy :: "Chain \<Rightarrow> Output \<Rightarrow> bool" where
  "ownedBy chain out =
     (case out_address out of
        None \<Rightarrow> False
      | Some a \<Rightarrow> a \<noteq> [] \<and> chainContainsAddress chain a)"

definition isCredit :: "Chain \<Rightarrow> Chain \<Rightarrow> Output \<Rightarrow> bool" where
  "isCredit external internal_chain out = (ownedBy external out \<or> ownedBy internal_chain out)"

definition isDebit :: "Chain \<Rightarrow> Chain \<Rightarrow> Output \<Rightarrow> bool" where
  "isDebit external internal_chain out = (\<not> isCredit external internal_chain out)"

text \<open>\<open>xs[i]\<close> of JavaScript: undefined out of range.\<close>

definition at_index :: "'a list \<Rightarrow> nat \<Rightarrow> 'a option" where
  "at_index xs i = (if i < length xs then Some (xs ! i) else None)"

text \<open>The state of the two \<open>forEach\<close> loops: the counters and the running value.\<close>

record Tally =
  nCredit :: nat
  nDebit :: nat
  tally_value :: int

definition debitStep ::
  "TransactionMap \<Rightarrow> Chain \<Rightarrow> Chain \<Rightarrow> string list \<Rightarrow> Tally \<Rightarrow> (Input \<times> nat) \<Rightarrow> Tally" where
  "debitStep transactions external internal_chain inputIds t p =
     (case tm_getOutput transactions (at_index inputIds (snd p)) (in_index (fst p)) of
        None \<Rightarrow> t
      | Some out \<Rightarrow>
          if isCredit external internal_chain out
          then t\<lparr>tally_value := minus_double (tally_value t) (out_value out),
                 nDebit := nDebit t + 1\<rparr>
          else t)"

definition creditStep :: "Chain \<Rightarrow> Chain \<Rightarrow> Tally \<Rightarrow> Output \<Rightarrow> Tally" where
  "creditStep external internal_chain t out =
     (if isCredit external internal_chain out
      then t\<lparr>tally_value := plus_double (tally_value t) (out_value out),
             nCredit := nCredit t + 1\<rparr>
      else t)"

text \<open>\<open>xs.forEach((x, index) => ...)\<close> over a state.\<close>

fun forEach :: "('s \<Rightarrow> 'a \<times> nat \<Rightarrow> 's) \<Rightarrow> 's \<Rightarrow> nat \<Rightarrow> 'a list \<Rightarrow> 's" where
  "forEach f s k [] = s"
| "forEach f s k (x # xs) = forEach f (f s (x, k)) (Suc k) xs"

definition analyzeTransaction ::
  "TransactionInfo \<Rightarrow> TransactionMap \<Rightarrow> Chain \<Rightarrow> Chain \<Rightarrow> TransactionImpact" where
  "analyzeTransaction info transactions external internal_chain =
     (let tx = info_tx info;
          t0 = \<lparr>nCredit = 0, nDebit = 0, tally_value = 0\<rparr>;
          t1 = forEach (debitStep transactions external internal_chain (info_inputIds info))
                 t0 0 (tx_ins tx);
          t2 = forEach (\<lambda>t p. creditStep external internal_chain t (fst p)) t1 0 (tx_outs tx);
          v = tally_value t2;
          (ty, targets) =
            (if nDebit t2 = length (tx_ins tx) \<and> nCredit t2 = length (tx_outs tx)
             then (internal, [])
             else if v > 0
             then (incoming,
                   (let targets = filter (ownedBy external) (tx_outs tx)
                    in if length targets = 0
                       then filter (ownedBy internal_chain) (tx_outs tx)
                       else targets))
             else (outgoing, filter (isDebit external internal_chain) (tx_outs tx)))
      in \<lparr>imp_id = info_id info, imp_height = info_height info,
          imp_timestamp = info_timestamp info, imp_type = ty, imp_value = v,
          imp_balance = 0, imp_targets = targets\<rparr>)"

text \<open>
  The previous outputs that the inputs of a transaction resolve to, in input order
  (\<open>None\<close> where \<open>getOutput\<close> finds nothing), and among them the debits: the
  resolved outputs that one of the two chains owns.
\<close>

fun spentFrom :: "TransactionMap \<Rightarrow> string list \<Rightarrow> nat \<Rightarrow> Input list \<Rightarrow> Output option list" where
  "spentFrom transactions inputIds k [] = []"
| "spentFrom transactions inputIds k (i # ins) =
     tm_getOutput transactions (at_index inputIds k) (in_index i)
       # spentFrom transactions inputIds (Suc k) ins"

definition spentOutputs :: "TransactionInfo \<Rightarrow> TransactionMap \<Rightarrow> Output option list" where
  "spentOutputs info transactions =
     spentFrom transactions (info_inputIds info) 0 (tx_ins (info_tx info))"

definition ownedDebits :: "Chain \<Rightarrow> Chain \<Rightarrow> Output option list \<Rightarrow> Output list" where
  "ownedDebits external internal_chain rs =
     filter (isCredit external internal_chain) (List.map_filter id rs)"

definition resolvesOwned :: "Chain \<Rightarrow> Chain \<Rightarrow> Output option \<Rightarrow> bool" where
  "resolvesOwned external internal_chain r =
     (case r of None \<Rightarrow> False | Some out \<Rightarrow> isCredit external internal_chain out)"



text \<open>
  Modelled from the spec: the class \<open>TransactionMap\<close> of \<open>./transaction\<close> is not
  among the source files. The spec resolves an input "via \<open>inputIds[index]\<close> into the
  full transaction set": the transaction stored under that id, then its output at the
  index. Only the concrete scenarios below use this instance; the general theorems hold
  for every \<open>getOutput\<close>.
\<close>

definition lookupOutput :: "TransactionInfo list \<Rightarrow> string option \<Rightarrow> nat \<Rightarrow> Output option" where
  "lookupOutput infos oid index =
     (case oid of
        None \<Rightarrow> None
      | Some i \<Rightarrow>
          (case find (\<lambda>info. info_id info = i) infos of
             None \<Rightarrow> None
           | Some info \<Rightarrow> at_index (tx_outs (info_tx info)) index))"

definition transactionMap :: "TransactionInfo list \<Rightarrow> TransactionMap" where
  "transactionMap infos = \<lparr>tm_infos = infos, tm_getOutput = lookupOutput infos\<rparr>"

subsection \<open>compareByOldestAndType\<close>

text \<open>
  The numbers the comparator computes with: integers, the two infinities and NaN.
  Subtraction, truthiness and \<open>||\<close> follow IEEE 754 and ECMAScript on these values.
\<close>

datatype number = Num int | PosInfinity | NegInfinity | NaN

fun minus_number :: "number \<Rightarrow> number \<Rightarrow> number" where
  "minus_number (Num a) (Num b) = Num (a - b)"
| "minus_number (Num a) PosInfinity = NegInfinity"
| "minus_number (Num a) NegInfinity = PosInfinity"
| "minus_number PosInfinity (Num b) = PosInfinity"
| "minus_number PosInfinity NegInfinity = PosInfinity"
| "minus_number PosInfinity PosInfinity = NaN"
| "minus_number NegInfinity (Num b) = NegInfinity"
| "minus_number NegInfinity PosInfinity = NegInfinity"
| "minus_number NegInfinity NegInfinity = NaN"
| "minus_number NaN b = NaN"
| "minus_number a NaN = NaN"

fun truthy :: "number \<Rightarrow> bool" where
  "truthy (Num n) = (n \<noteq> 0)"
| "truthy NaN = False"
| "truthy PosInfinity = True"
| "truthy NegInfinity = True"

definition js_or :: "number \<Rightarrow> number \<Rightarrow> number" where
  "js_or a b = (if truthy a then a else b)"

text \<open>\<open>xs.indexOf(x)\<close>: the first index holding \<open>x\<close>, or \<open>-1\<close>.\<close>

fun indexOfFrom :: "int \<Rightarrow> 'a list \<Rightarrow> 'a \<Rightarrow> int" where
  "indexOfFrom k [] x = -1"
| "indexOfFrom k (y # ys) x = (if y = x then k else indexOfFrom (k + 1) ys x)"

definition indexOf :: "'a list \<Rightarrow> 'a \<Rightarrow> int" where
  "indexOf xs x = indexOfFrom 0 xs x"

definition IMPACT_ORDERING :: "TransactionImpactType list" where
  "IMPACT_ORDERING = [incoming, internal, outgoing]"

definition compareByOldestAndType :: "TransactionImpact \<Rightarrow> TransactionImpact \<Rightarrow> number" where
  "compareByOldestAndType a b =
     (let ah = (case imp_height a of Some h \<Rightarrow> Num h | None \<Rightarrow> PosInfinity);
          bh = (case imp_height b of Some h \<Rightarrow> Num h | None \<Rightarrow> PosInfinity)
      in js_or (js_or (minus_number ah bh) (Num 0))
           (minus_number (Num (indexOf IMPACT_ORDERING (imp_type a)))
                         (Num (indexOf IMPACT_ORDERING (imp_type b)))))"

subsection \<open>deriveImpacts\<close>

text \<open>
  \<open>Array.prototype.sort\<close> with a comparator is the language's own: a stable sort
  (ECMAScript 2019), which puts \<open>a\<close> after \<open>b\<close> when the comparator's result is
  positive. It is modelled as the stable insertion sort.
\<close>

fun positive :: "number \<Rightarrow> bool" where
  "positive (Num n) = (n > 0)"
| "positive PosInfinity = True"
| "positive NegInfinity = False"
| "positive NaN = False"

fun insertBy :: "('a \<Rightarrow> 'a \<Rightarrow> number) \<Rightarrow> 'a \<Rightarrow> 'a list \<Rightarrow> 'a list" where
  "insertBy cmp x [] = [x]"
| "insertBy cmp x (y # ys) =
     (if positive (cmp x y) then y # insertBy cmp x ys else x # y # ys)"

definition sortBy :: "('a \<Rightarrow> 'a \<Rightarrow> number) \<Rightarrow> 'a list \<Rightarrow> 'a list" where
  "sortBy cmp xs = foldr (insertBy cmp) xs []"



subsection \<open>Derived notions and a sample wallet\<close>

text \<open>The rank of an impact type is its index in \<open>IMPACT_ORDERING\<close>.\<close>

definition typeRank :: "TransactionImpactType \<Rightarrow> int" where
  "typeRank t = indexOf IMPACT_ORDERING t"


text \<open>\<open>a\<close> need not come after \<open>b\<close>: the comparator's result is not positive.\<close>

definition notAfter :: "TransactionImpact \<Rightarrow> TransactionImpact \<Rightarrow> bool" where
  "notAfter a b = (\<not> positive (compareByOldestAndType a b))"

text \<open>
  A small wallet: a funding transaction pays 5000 satoshis to a receive address, a
  payment spends it (3000 back to a change address, 1800 to a payee, 200 fee), and an
  unconfirmed sweep moves the change to a receive address.
\<close>

definition receiveChain :: Chain where
  "receiveChain a = (a = ''receive-0'')"

definition changeChain :: Chain where
  "changeChain a = (a = ''change-0'')"

definition fundingInfo :: TransactionInfo where
  "fundingInfo =
     \<lparr>info_tx = \<lparr>tx_version = 1, tx_locktime = 0,
                 tx_ins = [\<lparr>in_script = [], in_hash = [], in_index = 3, in_sequence = 0\<rparr>],
                 tx_outs = [\<lparr>out_script = [], out_value = 5000,
                             out_address = Some ''receive-0''\<rparr>]\<rparr>,
      info_id = ''funding'', info_height = Some 100, info_timestamp = Some 1000,
      info_inputIds = [''elsewhere'']\<rparr>"

definition paidOutput :: Output where
  "paidOutput = \<lparr>out_script = [], out_value = 1800, out_address = Some ''payee''\<rparr>"

definition paymentInfo :: TransactionInfo where
  "paymentInfo =
     \<lparr>info_tx = \<lparr>tx_version = 1, tx_locktime = 0,
                 tx_ins = [\<lparr>in_script = [], in_hash = [], in_index = 0, in_sequence = 0\<rparr>],
                 tx_outs = [\<lparr>out_script = [], out_value = 3000,
                             out_address = Some ''change-0''\<rparr>, paidOutput]\<rparr>,
      info_id = ''payment'', info_height = Some 120, info_timestamp = Some 1200,
      info_inputIds = [''funding'']\<rparr>"

definition sweepInfo :: TransactionInfo where
  "sweepInfo =
     \<lparr>info_tx = \<lparr>tx_version = 1, tx_locktime = 0,
                 tx_ins = [\<lparr>in_script = [], in_hash = [], in_index = 0, in_sequence = 0\<rparr>],
                 tx_outs = [\<lparr>out_script = [], out_value = 2900,
                             out_address = Some ''receive-0''\<rparr>]\<rparr>,
      info_id = ''sweep'', info_height = None, info_timestamp = None,
      info_inputIds = [''payment'']\<rparr>"

definition walletHistory :: TransactionMap where
  "walletHistory = transactionMap [sweepInfo, paymentInfo, fundingInfo]"

definition sampleImpacts :: "TransactionImpact list" where
  "sampleImpacts =
     [\<lparr>imp_id = ''d'', imp_height = None, imp_timestamp = None, imp_type = outgoing,
       imp_value = - 7, imp_balance = 0, imp_targets = []\<rparr>,
      \<lparr>imp_id = ''c'', imp_height = Some 9, imp_timestamp = Some 90, imp_type = outgoing,
       imp_value = - 1, imp_balance = 0, imp_targets = []\<rparr>,
      \<lparr>imp_id = ''b'', imp_height = Some 9, imp_timestamp = Some 90, imp_type = incoming,
       imp_value = 4, imp_balance = 0, imp_targets = []\<rparr>,
      \<lparr>imp_id = ''a'', imp_height = Some 5, imp_timestamp = Some 50, imp_type = outgoing,
       imp_value = - 2, imp_balance = 0, imp_targets = []\<rparr>]"









section \<open>The bitcore client\<close>

subsection \<open>Backend records\<close>

text \<open>
  The wire formats of the backend: the node-native transaction (\<open>Bc\<dots>\<close>), the
  index-service one (\<open>Insight\<dots>\<close>), a history page and a live notification. Scripts,
  hashes and ids arrive as hex strings. A history item is a transaction info with the
  addresses it touches (the keys of its \<open>addresses\<close> object); a notification may lack
  height and timestamp.
\<close>

record BcInput =
  bcin_script :: string
  bcin_prevTxId :: string
  bcin_outputIndex :: int
  bcin_sequenceNumber :: int

record BcOutput =
  bcout_script :: string
  bcout_satoshis :: int

record BcTransaction =
  bctx_hash :: string
  bctx_version :: int
  bctx_nLockTime :: int
  bctx_inputs :: "BcInput list"
  bctx_outputs :: "BcOutput list"

record BcTransactionInfo =
  bc_tx :: BcTransaction
  bc_height :: int
  bc_timestamp :: "int option"

record BcHistory = BcTransactionInfo +
  bc_addresses :: "string list"

record 'a BcHistories =
  h_items :: "'a list"
  h_totalCount :: nat

record BcParsedAddress =
  pa_hash :: string
  pa_network :: string
  pa_type :: string

record BcNotification =
  nt_address :: BcParsedAddress
  nt_rejected :: bool
  nt_tx :: BcTransaction
  nt_height :: "int option"
  nt_timestamp :: "int option"

record InsightInput =
  ii_txid :: string
  ii_vout :: int
  ii_scriptSig :: string
  ii_sequence :: int

record InsightOutput =
  io_value :: string
  io_scriptPubKey :: string

record InsightTransactionInfo =
  ins_txid :: string
  ins_version :: int
  ins_locktime :: int
  ins_vin :: "InsightInput list"
  ins_vout :: "InsightOutput list"
  ins_blockheight :: int
  ins_time :: int

record TransactionMatch =
  m_info :: TransactionInfo
  m_addresses :: "string list"
  m_rejected :: bool

datatype error = TypeError string | Error string

subsection \<open>Buffers and numbers of the runtime\<close>

text \<open>
  \<open>new Buffer(s, 'hex')\<close> decodes two hex digits per byte and stops at the first pair
  that is not hex (an odd last digit is dropped); \<open>x >>> 0\<close> reduces an integer modulo
  \<open>2 ^ 32\<close>.
\<close>

definition hexDigit :: "char \<Rightarrow> nat option" where
  "hexDigit c =
     (let n = (of_char c :: nat)
      in if 48 \<le> n \<and> n \<le> 57 then Some (n - 48)
         else if 97 \<le> n \<and> n \<le> 102 then Some (n - 87)
         else if 65 \<le> n \<and> n \<le> 70 then Some (n - 55)
         else None)"

fun hexToBuffer :: "string \<Rightarrow> byte list" where
  "hexToBuffer (a # b # rest) =
     (case hexDigit a of
        None \<Rightarrow> []
      | Some x \<Rightarrow>
          (case hexDigit b of
             None \<Rightarrow> []
           | Some y \<Rightarrow> (16 * x + y) # hexToBuffer rest))"
| "hexToBuffer [a] = []"
| "hexToBuffer [] = []"

definition toUint32 :: "int \<Rightarrow> nat" where
  "toUint32 n = nat (n mod 4294967296)"

subsection \<open>Wire format adapters\<close>

text \<open>
  \<open>insightToTransaction\<close> computes an output value as
  \<open>Math.round(parseFloat(or.value) * 1e8)\<close>, in floating point; the model takes that
  conversion as the parameter \<open>toSatoshis\<close>. The adapters set no address on an output.
\<close>

definition insightToTransaction :: "(string \<Rightarrow> int) \<Rightarrow> InsightTransactionInfo \<Rightarrow> Transaction" where
  "insightToTransaction toSatoshis r =
     \<lparr>tx_version = ins_version r,
      tx_locktime = ins_locktime r,
      tx_ins = map (\<lambda>ir. \<lparr>in_script = hexToBuffer (ii_scriptSig ir),
                            in_hash = rev (hexToBuffer (ii_txid ir)),
                            in_index = toUint32 (ii_vout ir),
                            in_sequence = toUint32 (ii_sequence ir)\<rparr>) (ins_vin r),
      tx_outs = map (\<lambda>or. \<lparr>out_script = hexToBuffer (io_scriptPubKey or),
                             out_value = toSatoshis (io_value or),
                             out_address = None\<rparr>) (ins_vout r)\<rparr>"

definition EMPTY_BUFFER :: "byte list" where
  "EMPTY_BUFFER = []"

definition bitcoreToTransaction :: "BcTransaction \<Rightarrow> bool \<Rightarrow> Transaction" where
  "bitcoreToTransaction r neutered =
     \<lparr>tx_version = bctx_version r,
      tx_locktime = bctx_nLockTime r,
      tx_ins = map (\<lambda>ir. \<lparr>in_script = (if neutered then EMPTY_BUFFER
                                          else hexToBuffer (bcin_script ir)),
                            in_hash = rev (hexToBuffer (bcin_prevTxId ir)),
                            in_index = toUint32 (bcin_outputIndex ir),
                            in_sequence = toUint32 (bcin_sequenceNumber ir)\<rparr>) (bctx_inputs r),
      tx_outs = map (\<lambda>or. \<lparr>out_script = hexToBuffer (bcout_script or),
                             out_value = bcout_satoshis or,
                             out_address = None\<rparr>) (bctx_outputs r)\<rparr>"

text \<open>
  Modelled from the spec: the class \<open>TransactionInfo\<close> of \<open>./transaction\<close> is not
  among the source files. The spec's data model lists its fields: the transaction, its
  id, height and timestamp as given to the constructor, and \<open>inputIds\<close>, "the ordered
  sequence of transaction ids referenced by each input", an id being the hash in the
  backend's display order (byte-reversed, in hex).
\<close>

definition hexChar :: "nat \<Rightarrow> char" where
  "hexChar n = ''0123456789abcdef'' ! (n mod 16)"

definition bufferToHex :: "byte list \<Rightarrow> string" where
  "bufferToHex bs = concat (map (\<lambda>b. [hexChar (b div 16), hexChar b]) bs)"

definition newTransactionInfo ::
  "Transaction \<Rightarrow> string \<Rightarrow> int option \<Rightarrow> int option \<Rightarrow> TransactionInfo" where
  "newTransactionInfo tx ident height timestamp =
     \<lparr>info_tx = tx, info_id = ident, info_height = height, info_timestamp = timestamp,
      info_inputIds = map (\<lambda>i. bufferToHex (rev (in_hash i))) (tx_ins tx)\<rparr>"

subsection \<open>The client and its socket\<close>

text \<open>
  The socket is seen through what it emits: \<open>subscribe(event, ...values)\<close> emits
  \<open>'subscribe'\<close>, the event and the values. The client holds the interned transactions
  (a \<open>Map\<close> from id), the subscribed addresses (a \<open>Set\<close>) and the socket. The field
  \<open>bb_built\<close> is not in the source: it logs the id of every call of a conversion
  function (\<open>bitcoreToTransaction\<close> or \<open>insightToTransaction\<close>), so that how often
  a transaction is built can be stated.
\<close>

record Emission =
  em_name :: string
  em_event :: string
  em_values :: "string list list"

record Socket =
  sock_emitted :: "Emission list"

record BitcoreBlockchain =
  bb_transactions :: "string \<rightharpoonup> Transaction"
  bb_addresses :: "string set"
  bb_socket :: Socket
  bb_built :: "string list"

definition newBitcoreBlockchain :: BitcoreBlockchain where
  "newBitcoreBlockchain =
     \<lparr>bb_transactions = Map.empty, bb_addresses = {},
      bb_socket = \<lparr>sock_emitted = []\<rparr>, bb_built = []\<rparr>"

definition socket_subscribe :: "Socket \<Rightarrow> string \<Rightarrow> string list list \<Rightarrow> Socket" where
  "socket_subscribe socket event vals =
     socket\<lparr>sock_emitted := sock_emitted socket
               @ [\<lparr>em_name = ''subscribe'', em_event = event, em_values = vals\<rparr>]\<rparr>"

definition subscribe :: "BitcoreBlockchain \<Rightarrow> string list \<Rightarrow> BitcoreBlockchain" where
  "subscribe this addresses =
     (let addresses' = filter (\<lambda>a. \<not> (a \<in> bb_addresses this)) addresses;
          this' = fold (\<lambda>a s. s\<lparr>bb_addresses := insert a (bb_addresses s)\<rparr>) addresses' this
      in this'\<lparr>bb_socket :=
                 socket_subscribe (bb_socket this') ''address/transaction'' [addresses']\<rparr>)"

definition toInfo ::
  "BitcoreBlockchain \<Rightarrow> 'a BcTransactionInfo_scheme \<Rightarrow> TransactionInfo \<times> BitcoreBlockchain" where
  "toInfo this r =
     (let ident = bctx_hash (bc_tx r);
          height = (if bc_height r > 0 then Some (bc_height r) else None);
          timestamp = (if bc_height r > 0 then bc_timestamp r else None)
      in case bb_transactions this ident of
           None \<Rightarrow>
             (let tx = bitcoreToTransaction (bc_tx r) True
              in (newTransactionInfo tx ident height timestamp,
                  this\<lparr>bb_transactions := (bb_transactions this)(ident \<mapsto> tx),
                       bb_built := bb_built this @ [ident]\<rparr>))
         | Some tx \<Rightarrow> (newTransactionInfo tx ident height timestamp, this))"

definition insightToInfo ::
  "(string \<Rightarrow> int) \<Rightarrow> BitcoreBlockchain \<Rightarrow> InsightTransactionInfo
     \<Rightarrow> TransactionInfo \<times> BitcoreBlockchain" where
  "insightToInfo toSatoshis this r =
     (let ident = ins_txid r;
          height = (if ins_blockheight r > 0 then Some (ins_blockheight r) else None);
          timestamp = (if ins_blockheight r > 0 then Some (ins_time r) else None)
      in case bb_transactions this ident of
           None \<Rightarrow>
             (let tx = insightToTransaction toSatoshis r
              in (newTransactionInfo tx ident height timestamp,
                  this\<lparr>bb_transactions := (bb_transactions this)(ident \<mapsto> tx),
                       bb_built := bb_built this @ [ident]\<rparr>))
         | Some tx \<Rightarrow> (newTransactionInfo tx ident height timestamp, this))"

subsection \<open>The address adapter\<close>

text \<open>
  Modelled from the spec: \<open>networks\<close> and \<open>address.toBase58Check\<close> belong to the
  Bitcoin library, an external collaborator ("address encoding/decoding for a specific
  network (base58-check and version bytes)"). The version bytes are those of the two
  networks; base58-check is the version byte and the hash, followed by the first four
  bytes of their double SHA-256, written in base 58 with one \<open>1\<close> per leading zero
  byte. SHA-256 works on 32-bit words, here natural numbers below \<open>2 ^ 32\<close> with the
  wrap-around written out.
\<close>

record Network =
  net_pubKeyHash :: nat
  net_scriptHash :: nat

definition bitcoin :: Network where
  "bitcoin = \<lparr>net_pubKeyHash = 0, net_scriptHash = 5\<rparr>"

definition testnet :: Network where
  "testnet = \<lparr>net_pubKeyHash = 111, net_scriptHash = 196\<rparr>"

type_synonym w32 = nat

definition add32 :: "w32 \<Rightarrow> w32 \<Rightarrow> w32" where
  "add32 x y = (x + y) mod 4294967296"

definition not32 :: "w32 \<Rightarrow> w32" where
  "not32 x = 4294967295 - x"

definition shr :: "nat \<Rightarrow> w32 \<Rightarrow> w32" where
  "shr n x = x div 2 ^ n"

definition rotr :: "nat \<Rightarrow> w32 \<Rightarrow> w32" where
  "rotr n x = x div 2 ^ n + (x mod 2 ^ n) * 2 ^ (32 - n)"

definition ch :: "w32 \<Rightarrow> w32 \<Rightarrow> w32 \<Rightarrow> w32" where
  "ch x y z = xor (and x y) (and (not32 x) z)"

definition maj :: "w32 \<Rightarrow> w32 \<Rightarrow> w32 \<Rightarrow> w32" where
  "maj x y z = xor (xor (and x y) (and x z)) (and y z)"

definition bsig0 :: "w32 \<Rightarrow> w32" where
  "bsig0 x = xor (xor (rotr 2 x) (rotr 13 x)) (rotr 22 x)"

definition bsig1 :: "w32 \<Rightarrow> w32" where
  "bsig1 x = xor (xor (rotr 6 x) (rotr 11 x)) (rotr 25 x)"

definition ssig0 :: "w32 \<Rightarrow> w32" where
  "ssig0 x = xor (xor (rotr 7 x) (rotr 18 x)) (shr 3 x)"

definition ssig1 :: "w32 \<Rightarrow> w32" where
  "ssig1 x = xor (xor (rotr 17 x) (rotr 19 x)) (shr 10 x)"

definition K256 :: "w32 list" where
  "K256 =
   [1116352408, 1899447441, 3049323471, 3921009573, 961987163, 1508970993, 2453635748, 2870763221,
    3624381080, 310598401, 607225278, 1426881987, 1925078388, 2162078206, 2614888103, 3248222580,
    3835390401, 4022224774, 264347078, 604807628, 770255983, 1249150122, 1555081692, 1996064986,
    2554220882, 2821834349, 2952996808, 3210313671, 3336571891, 3584528711, 113926993, 338241895,
    666307205, 773529912, 1294757372, 1396182291, 1695183700, 1986661051, 2177026350, 2456956037,
    2730485921, 2820302411, 3259730800, 3345764771, 3516065817, 3600352804, 4094571909, 275423344,
    430227734, 506948616, 659060556, 883997877, 958139571, 1322822218, 1537002063, 1747873779,
    1955562222, 2024104815, 2227730452, 2361852424, 2428436474, 2756734187, 3204031479, 3329325298]"

type_synonym sha_state = "w32 \<times> w32 \<times> w32 \<times> w32 \<times> w32 \<times> w32 \<times> w32 \<times> w32"

definition H256 :: sha_state where
  "H256 = (1779033703, 3144134277, 1013904242, 2773480762,
           1359893119, 2600822924, 528734635, 1541459225)"

definition nextWord :: "w32 list \<Rightarrow> w32" where
  "nextWord ws = add32 (add32 (add32 (ssig1 (ws ! 14)) (ws ! 9)) (ssig0 (ws ! 1))) (ws ! 0)"

fun expand :: "'a list \<Rightarrow> w32 list \<Rightarrow> w32 list" where
  "expand [] ws = []"
| "expand (k # ks) ws = nextWord ws # expand ks (tl ws @ [nextWord ws])"

definition schedule :: "w32 list \<Rightarrow> w32 list" where
  "schedule block = block @ expand (drop 16 K256) block"

fun round256 :: "sha_state \<Rightarrow> w32 \<times> w32 \<Rightarrow> sha_state" where
  "round256 (a, b, c, d, e, f, g, h) (k, w) =
     (let t1 = add32 (add32 (add32 (add32 h (bsig1 e)) (ch e f g)) k) w;
          t2 = add32 (bsig0 a) (maj a b c)
      in (add32 t1 t2, a, b, c, add32 d t1, e, f, g))"

fun add_state :: "sha_state \<Rightarrow> sha_state \<Rightarrow> sha_state" where
  "add_state (a, b, c, d, e, f, g, h) (a', b', c', d', e', f', g', h') =
     (add32 a a', add32 b b', add32 c c', add32 d d', add32 e e', add32 f f', add32 g g',
      add32 h h')"

definition compress :: "sha_state \<Rightarrow> w32 list \<Rightarrow> sha_state" where
  "compress hs block = add_state hs (foldl round256 hs (zip K256 (schedule block)))"

fun compressAll :: "sha_state \<Rightarrow> w32 list list \<Rightarrow> sha_state" where
  "compressAll hs [] = hs"
| "compressAll hs (block # blocks) = compressAll (compress hs block) blocks"

fun wordsOf :: "byte list \<Rightarrow> w32 list" where
  "wordsOf (a # b # c # d # rest) = (((a * 256 + b) * 256 + c) * 256 + d) # wordsOf rest"
| "wordsOf bs = []"

fun chunks :: "nat \<Rightarrow> w32 list \<Rightarrow> w32 list list" where
  "chunks 0 ws = []"
| "chunks (Suc n) ws = take 16 ws # chunks n (drop 16 ws)"

fun bigEndian :: "nat \<Rightarrow> nat \<Rightarrow> byte list" where
  "bigEndian 0 x = []"
| "bigEndian (Suc n) x = bigEndian n (x div 256) @ [x mod 256]"

definition pad :: "byte list \<Rightarrow> byte list" where
  "pad msg =
     msg @ [128] @ replicate ((119 - length msg mod 64) mod 64) 0
       @ bigEndian 8 (8 * length msg)"

fun digest :: "sha_state \<Rightarrow> byte list" where
  "digest (a, b, c, d, e, f, g, h) = concat (map (bigEndian 4) [a, b, c, d, e, f, g, h])"

definition sha256 :: "byte list \<Rightarrow> byte list" where
  "sha256 msg =
     digest (compressAll H256
       (chunks (length (wordsOf (pad msg)) div 16) (wordsOf (pad msg))))"

definition BASE58 :: string where
  "BASE58 = ''123456789ABCDEFGHJKLMNPQRSTUVWXYZabcdefghijkmnopqrstuvwxyz''"

fun fromBigEndian :: "nat \<Rightarrow> byte list \<Rightarrow> nat" where
  "fromBigEndian acc [] = acc"
| "fromBigEndian acc (b # bs) = fromBigEndian (acc * 256 + b) bs"

fun base58digits :: "nat \<Rightarrow> string" where
  "base58digits n = (if n = 0 then [] else base58digits (n div 58) @ [BASE58 ! (n mod 58)])"

definition base58 :: "byte list \<Rightarrow> string" where
  "base58 bs =
     replicate (length (takeWhile (\<lambda>b. b = 0) bs)) (CHR ''1'')
       @ base58digits (fromBigEndian 0 bs)"

definition toBase58Check :: "byte list \<Rightarrow> nat \<Rightarrow> string" where
  "toBase58Check hash version =
     base58 ((version # hash) @ take 4 (sha256 (sha256 (version # hash))))"

text \<open>The three functions of the source; a \<open>throw\<close> is the left summand.\<close>

definition bitcoreToNetwork :: "string \<Rightarrow> error + Network" where
  "bitcoreToNetwork s =
     (if s = ''livenet'' then Inr bitcoin
      else if s = ''testnet'' then Inr testnet
      else Inl (TypeError (''Unknown bitcore network '' @ [CHR 0x27] @ s @ [CHR 0x27])))"

definition bitcoreToAddressVersion :: "Network \<Rightarrow> string \<Rightarrow> error + nat" where
  "bitcoreToAddressVersion n s =
     (if s = ''pubkeyhash'' then Inr (net_pubKeyHash n)
      else if s = ''scripthash'' then Inr (net_scriptHash n)
      else Inl (TypeError (''Unknown bitcore address version '' @ [CHR 0x27] @ s @ [CHR 0x27])))"

definition bitcoreToAddress :: "BcParsedAddress \<Rightarrow> error + string" where
  "bitcoreToAddress r =
     (case bitcoreToNetwork (pa_network r) of
        Inl e \<Rightarrow> Inl e
      | Inr n \<Rightarrow>
          (case bitcoreToAddressVersion n (pa_type r) of
             Inl e \<Rightarrow> Inl e
           | Inr v \<Rightarrow> Inr (toBase58Check (hexToBuffer (pa_hash r)) v)))"

subsection \<open>Matches\<close>

text \<open>
  \<open>notificationToMatch\<close> fills in the height \<open>-1\<close> for a mempool notification and
  evaluates \<open>toInfo\<close> before \<open>bitcoreToAddress\<close>: when the address is refused, the
  transaction has been interned all the same.
\<close>

definition notificationInfo :: "BcNotification \<Rightarrow> BcTransactionInfo" where
  "notificationInfo r =
     \<lparr>bc_tx = nt_tx r,
      bc_height = (case nt_height r of Some h \<Rightarrow> h | None \<Rightarrow> - 1),
      bc_timestamp = (case nt_timestamp r of Some t \<Rightarrow> Some t | None \<Rightarrow> None)\<rparr>"

definition notificationToMatch ::
  "BitcoreBlockchain \<Rightarrow> BcNotification \<Rightarrow> (error + TransactionMatch) \<times> BitcoreBlockchain" where
  "notificationToMatch this r =
     (let (info, this') = toInfo this (notificationInfo r)
      in case bitcoreToAddress (nt_address r) of
           Inl e \<Rightarrow> (Inl e, this')
         | Inr a \<Rightarrow>
             (Inr \<lparr>m_info = info, m_addresses = [a], m_rejected = nt_rejected r\<rparr>, this'))"

definition historyToMatch ::
  "BitcoreBlockchain \<Rightarrow> BcHistory \<Rightarrow> TransactionMatch \<times> BitcoreBlockchain" where
  "historyToMatch this r =
     (let (info, this') = toInfo this r
      in (\<lparr>m_info = info, m_addresses = bc_addresses r, m_rejected = False\<rparr>, this'))"

text \<open>
  An observation of a transaction: a live notification, an item of a history page or an
  insight lookup. \<open>intern\<close> is the interning step each of them goes through.
\<close>

datatype Observation =
  Live BcNotification | Historical BcHistory | Insight InsightTransactionInfo

fun observedId :: "Observation \<Rightarrow> string" where
  "observedId (Live r) = bctx_hash (nt_tx r)"
| "observedId (Historical r) = bctx_hash (bc_tx r)"
| "observedId (Insight r) = ins_txid r"

fun intern ::
  "(string \<Rightarrow> int) \<Rightarrow> BitcoreBlockchain \<Rightarrow> Observation \<Rightarrow> TransactionInfo \<times> BitcoreBlockchain" where
  "intern toSatoshis this (Live r) = toInfo this (notificationInfo r)"
| "intern toSatoshis this (Historical r) = toInfo this r"
| "intern toSatoshis this (Insight r) = insightToInfo toSatoshis this r"

fun internAll ::
  "(string \<Rightarrow> int) \<Rightarrow> BitcoreBlockchain \<Rightarrow> Observation list
     \<Rightarrow> TransactionInfo list \<times> BitcoreBlockchain" where
  "internAll toSatoshis this [] = ([], this)"
| "internAll toSatoshis this (x # xs) =
     (let (info, this') = intern toSatoshis this x;
          (infos, this'') = internAll toSatoshis this' xs
      in (info # infos, this''))"

text \<open>
  The log of conversions agrees with the cache when its entries are distinct and are
  exactly the cached ids.
\<close>

definition logAgrees :: "BitcoreBlockchain \<Rightarrow> bool" where
  "logAgrees this =
     (distinct (bb_built this) \<and> set (bb_built this) = dom (bb_transactions this))"

text \<open>What the client exposes of a height: absent, or positive with any timestamp.\<close>

definition exposedHeight :: "TransactionInfo \<Rightarrow> bool" where
  "exposedHeight info =
     (case info_height info of
        None \<Rightarrow> info_timestamp info = None
      | Some h \<Rightarrow> 0 < h)"

text \<open>
  Sample records: one transaction seen live (no height yet) and later in a history page,
  another seen through an insight lookup that reports block height 0.
\<close>

definition zeroHashAddress :: BcParsedAddress where
  "zeroHashAddress =
     \<lparr>pa_hash = ''0000000000000000000000000000000000000000'',
      pa_network = ''livenet'', pa_type = ''pubkeyhash''\<rparr>"

definition sampleTx :: BcTransaction where
  "sampleTx =
     \<lparr>bctx_hash = ''aa'', bctx_version = 1, bctx_nLockTime = 0,
      bctx_inputs = [\<lparr>bcin_script = ''51'', bcin_prevTxId = ''0102'',
                      bcin_outputIndex = 0, bcin_sequenceNumber = 4294967295\<rparr>],
      bctx_outputs = [\<lparr>bcout_script = ''76a9'', bcout_satoshis = 5000\<rparr>]\<rparr>"

definition sampleNotification :: BcNotification where
  "sampleNotification =
     \<lparr>nt_address = zeroHashAddress, nt_rejected = False, nt_tx = sampleTx,
      nt_height = None, nt_timestamp = None\<rparr>"

definition sampleHistory :: BcHistory where
  "sampleHistory =
     \<lparr>bc_tx = sampleTx, bc_height = 120, bc_timestamp = Some 1200,
      bc_addresses = [''1111111111111111111114oLvT2'']\<rparr>"

definition sampleInsight :: InsightTransactionInfo where
  "sampleInsight =
     \<lparr>ins_txid = ''bb'', ins_version = 1, ins_locktime = 0, ins_vin = [], ins_vout = [],
      ins_blockheight = 0, ins_time = 77\<rparr>"

definition sampleObservations :: "Observation list" where
  "sampleObservations = [Live sampleNotification, Insight sampleInsight, Historical sampleHistory]"

subsection \<open>Paging through the address history\<close>

text \<open>
  A request for a page of history, as \<open>lookupAddressHistories\<close> sends it, and the
  backend as the function answering it: \<open>socket.send\<close> resolves with the result or
  rejects with the backend's error message. Offsets and counts are natural numbers.
\<close>

record HistoryQuery =
  q_addresses :: "string list"
  q_from :: nat
  q_to :: nat
  q_start :: "int option"
  q_end :: "int option"
  q_queryMempool :: bool

type_synonym 'a Backend = "HistoryQuery \<Rightarrow> string + 'a BcHistories"

record 'a Page =
  pg_items :: "'a list"
  pg_totalCount :: nat
  pg_from :: nat
  pg_to :: nat

definition lookupAddressHistories ::
  "'a Backend \<Rightarrow> string list \<Rightarrow> nat \<Rightarrow> nat \<Rightarrow> int option \<Rightarrow> int option
     \<Rightarrow> string + 'a BcHistories" where
  "lookupAddressHistories socket addresses from_index to_index start end_height =
     socket \<lparr>q_addresses = addresses, q_from = from_index, q_to = to_index,
             q_start = start, q_end = end_height, q_queryMempool = True\<rparr>"

text \<open>
  Modelled from the spec: \<open>Stream.generate\<close> of \<open>./stream\<close> is not among the source
  files. The spec describes the paging as a state threaded from page to page: the first
  request is made from the seed, every page is emitted, and the sequence stops once the
  condition on the page just emitted fails ("stop once \<open>to >= totalCount\<close> using the
  most recently reported \<open>totalCount\<close>"); a page request "completes or fails as a
  unit". The result is the list of states emitted and the error that ended the stream,
  if any; \<open>None\<close> stands for a stream that never finishes.
\<close>

partial_function (option) generate ::
  "('s \<Rightarrow> string + 's) \<Rightarrow> ('s \<Rightarrow> bool) \<Rightarrow> 's \<Rightarrow> ('s list \<times> string option) option" where
  "generate step continue state =
     (case step state of
        Inl e \<Rightarrow> Some ([], Some e)
      | Inr next_state \<Rightarrow>
          if continue next_state
          then Option.bind (generate step continue next_state)
                 (\<lambda>r. Some (next_state # fst r, snd r))
          else Some ([next_state], None))"

definition initialPage :: "nat \<Rightarrow> 'a Page" where
  "initialPage pageLength =
     \<lparr>pg_items = [], pg_totalCount = pageLength, pg_from = 0, pg_to = 0\<rparr>"

definition nextPage ::
  "'a Backend \<Rightarrow> string list \<Rightarrow> int option \<Rightarrow> int option \<Rightarrow> nat \<Rightarrow> 'a Page
     \<Rightarrow> string + 'a Page" where
  "nextPage socket addresses start end_height pageLength previous =
     (let from_index = pg_to previous;
          to_index = min (pg_to previous + pageLength) (pg_totalCount previous)
      in case lookupAddressHistories socket addresses from_index to_index start end_height of
           Inl e \<Rightarrow> Inl e
         | Inr result \<Rightarrow>
             Inr \<lparr>pg_items = h_items result, pg_totalCount = h_totalCount result,
                  pg_from = from_index, pg_to = to_index\<rparr>)"

definition lookupAllAddressHistories ::
  "'a Backend \<Rightarrow> string list \<Rightarrow> int option \<Rightarrow> int option \<Rightarrow> nat
     \<Rightarrow> ('a Page list \<times> string option) option" where
  "lookupAllAddressHistories socket addresses start end_height pageLength =
     generate (nextPage socket addresses start end_height pageLength)
       (\<lambda>page. pg_to page < pg_totalCount page)
       (initialPage pageLength)"

text \<open>
  A backend holding a fixed history: it answers a request with the items of the index
  range \<open>[from, to)\<close> and with the length of the history as total count.
\<close>

definition fixedHistory :: "'a list \<Rightarrow> 'a Backend" where
  "fixedHistory history q =
     Inr \<lparr>h_items = take (q_to q - q_from q) (drop (q_from q) history),
          h_totalCount = length history\<rparr>"

text \<open>The spec's \<open>ceil(totalCount / pageLength)\<close>.\<close>

definition ceilDiv :: "nat \<Rightarrow> nat \<Rightarrow> nat" where
  "ceilDiv totalCount pageLength = (totalCount + pageLength - 1) div pageLength"

text \<open>A backend that answers every request, always with the same total count.\<close>

definition reportsTotal :: "'a Backend \<Rightarrow> nat \<Rightarrow> bool" where
  "reportsTotal socket totalCount =
     (\<forall>q. \<exists>r. socket q = Inr r \<and> h_totalCount r = totalCount)"


section \<open>Properties of the impact derivation engine\<close>

subsection \<open>What the two loops of \<open>analyzeTransaction\<close> compute\<close>

lemma ownedDebits_Nil: "ownedDebits e i [] = []"
  by (simp add: ownedDebits_def List.map_filter_simps)

lemma ownedDebits_Cons:
  "ownedDebits e i (r # rs) =
     (case r of None \<Rightarrow> [] | Some out \<Rightarrow> if isCredit e i out then [out] else [])
       @ ownedDebits e i rs"
  by (simp add: ownedDebits_def List.map_filter_simps split: option.splits)

lemma debitStep_eq:
  "debitStep T e i ids t (a, k) =
     (case tm_getOutput T (at_index ids k) (in_index a) of
        None \<Rightarrow> t
      | Some out \<Rightarrow>
          if isCredit e i out
          then t\<lparr>tally_value := plus_double (tally_value t) (- out_value out),
                 nDebit := nDebit t + 1\<rparr>
          else t)"
  by (simp add: debitStep_def minus_double_def plus_double_def split: option.splits)

lemma creditStep_eq:
  "creditStep e i t a =
     (if isCredit e i a
      then t\<lparr>tally_value := plus_double (tally_value t) (out_value a),
             nCredit := nCredit t + 1\<rparr>
      else t)"
  by (simp add: creditStep_def)

lemma forEach_debit:
  "forEach (debitStep T e i ids) t k ins =
     t\<lparr>tally_value := foldl plus_double (tally_value t)
           (map (\<lambda>out. - out_value out) (ownedDebits e i (spentFrom T ids k ins))),
        nDebit := nDebit t + length (ownedDebits e i (spentFrom T ids k ins))\<rparr>"
proof (induction ins arbitrary: t k)
  case Nil
  show ?case by (simp add: ownedDebits_Nil)
next
  case (Cons a ins)
  have "forEach (debitStep T e i ids) t k (a # ins)
          = forEach (debitStep T e i ids) (debitStep T e i ids t (a, k)) (Suc k) ins"
    by simp
  also have "\<dots> = (debitStep T e i ids t (a, k))\<lparr>tally_value :=
           foldl plus_double (tally_value (debitStep T e i ids t (a, k)))
             (map (\<lambda>out. - out_value out) (ownedDebits e i (spentFrom T ids (Suc k) ins))),
        nDebit := nDebit (debitStep T e i ids t (a, k)) + length (ownedDebits e i (spentFrom T ids (Suc k) ins))\<rparr>"
    by (rule Cons.IH)
  finally show ?case
    by (simp add: debitStep_eq ownedDebits_Cons split: option.splits)
qed

lemma forEach_credit:
  "forEach (\<lambda>t p. creditStep e i t (fst p)) t k outs =
     t\<lparr>tally_value := foldl plus_double (tally_value t)
           (map out_value (filter (isCredit e i) outs)),
        nCredit := nCredit t + length (filter (isCredit e i) outs)\<rparr>"
proof (induction outs arbitrary: t k)
  case Nil
  show ?case by simp
next
  case (Cons a outs)
  have "forEach (\<lambda>t p. creditStep e i t (fst p)) t k (a # outs)
          = forEach (\<lambda>t p. creditStep e i t (fst p)) (creditStep e i t a) (Suc k) outs"
    by simp
  also have "\<dots> = (creditStep e i t a)\<lparr>tally_value :=
           foldl plus_double (tally_value (creditStep e i t a))
             (map out_value (filter (isCredit e i) outs)),
        nCredit := nCredit (creditStep e i t a) + length (filter (isCredit e i) outs)\<rparr>"
    by (rule Cons.IH)
  finally show ?case
    by (simp add: creditStep_eq)
qed

lemma length_spentFrom: "length (spentFrom T ids k ins) = length ins"
  by (induction ins arbitrary: k) simp_all

lemma length_ownedDebits_all:
  "list_all (resolvesOwned e i) rs \<Longrightarrow> length (ownedDebits e i rs) = length rs"
  by (induction rs) (auto simp: ownedDebits_Nil ownedDebits_Cons resolvesOwned_def split: option.splits)

lemma length_filter_all: "list_all P xs \<Longrightarrow> length (filter P xs) = length xs"
  by (induction xs) simp_all

lemmas scenario_defs =
  receiveChain_def changeChain_def fundingInfo_def paidOutput_def paymentInfo_def sweepInfo_def
  walletHistory_def transactionMap_def lookupOutput_def at_index_def













text \<open>
  Claim C5. When every input of a transaction resolves to a previous output owned by one
  of the two chains and every output's address is owned by one of the two chains,
  \<open>analyzeTransaction\<close> classifies the transaction as internal, with no targets.
\<close>

theorem analyze_internal:
  assumes "list_all (resolvesOwned e i) (spentOutputs info T)"
      and "list_all (isCredit e i) (tx_outs (info_tx info))"
  shows "imp_type (analyzeTransaction info T e i) = internal
         \<and> imp_targets (analyzeTransaction info T e i) = []"
proof -
  have d: "length (ownedDebits e i (spentFrom T (info_inputIds info) 0 (tx_ins (info_tx info))))
             = length (tx_ins (info_tx info))"
    using length_ownedDebits_all [OF assms(1) [unfolded spentOutputs_def]]
    by (simp add: length_spentFrom)
  have c: "length (filter (isCredit e i) (tx_outs (info_tx info))) = length (tx_outs (info_tx info))"
    using assms(2) by (rule length_filter_all)
  show ?thesis
    by (simp add: analyzeTransaction_def Let_def forEach_debit forEach_credit d c)
qed

theorem analyze_internal_witness:
  "list_all (resolvesOwned receiveChain changeChain) (spentOutputs sweepInfo walletHistory)
   \<and> list_all (isCredit receiveChain changeChain) (tx_outs (info_tx sweepInfo))
   \<and> imp_type (analyzeTransaction sweepInfo walletHistory receiveChain changeChain) = internal
   \<and> imp_targets (analyzeTransaction sweepInfo walletHistory receiveChain changeChain) = []"
proof -
  have h1: "list_all (resolvesOwned receiveChain changeChain) (spentOutputs sweepInfo walletHistory)"
    by (simp add: spentOutputs_def resolvesOwned_def isCredit_def ownedBy_def
          chainContainsAddress_def scenario_defs)
  have h2: "list_all (isCredit receiveChain changeChain) (tx_outs (info_tx sweepInfo))"
    by (simp add: isCredit_def ownedBy_def chainContainsAddress_def scenario_defs)
  from analyze_internal [OF h1 h2] h1 h2 show ?thesis by simp
qed


text \<open>
  Claim C6. A transaction with exactly one input, spending a resolved owned output of
  5000 satoshis, with one output of 3000 satoshis to an owned address and one output of
  1800 satoshis to an address of neither chain (in either order), is classified as
  outgoing, with value \<open>-2000\<close> and exactly the 1800-satoshi output as its targets.
\<close>

theorem analyze_scenario:
  assumes "tx_ins (info_tx info) = [inp]"
      and "spentOutputs info T = [Some prev]"
      and "out_value prev = 5000" and "isCredit e i prev"
      and "tx_outs (info_tx info) = [a, b] \<or> tx_outs (info_tx info) = [b, a]"
      and "out_value a = 3000" and "isCredit e i a"
      and "out_value b = 1800" and "\<not> isCredit e i b"
  shows "imp_type (analyzeTransaction info T e i) = outgoing
         \<and> imp_value (analyzeTransaction info T e i) = - 2000
         \<and> imp_targets (analyzeTransaction info T e i) = [b]"
proof -
  have s: "spentFrom T (info_inputIds info) 0 (tx_ins (info_tx info)) = [Some prev]"
    using assms(2) by (simp add: spentOutputs_def)
  from assms(5) show ?thesis
  proof
    assume o: "tx_outs (info_tx info) = [a, b]"
    show ?thesis
      using assms(3,4,6-9)
      by (simp add: analyzeTransaction_def Let_def forEach_debit forEach_credit s o
            ownedDebits_Cons ownedDebits_Nil isDebit_def plus_double_def roundDouble_def)
  next
    assume o: "tx_outs (info_tx info) = [b, a]"
    show ?thesis
      using assms(3,4,6-9)
      by (simp add: analyzeTransaction_def Let_def forEach_debit forEach_credit s o
            ownedDebits_Cons ownedDebits_Nil isDebit_def plus_double_def roundDouble_def)
  qed
qed

theorem analyze_scenario_witness:
  "spentOutputs paymentInfo walletHistory
     = [Some \<lparr>out_script = [], out_value = 5000, out_address = Some ''receive-0''\<rparr>]
   \<and> tx_outs (info_tx paymentInfo)
       = [\<lparr>out_script = [], out_value = 3000, out_address = Some ''change-0''\<rparr>, paidOutput]
   \<and> isCredit receiveChain changeChain
        \<lparr>out_script = [], out_value = 3000, out_address = Some ''change-0''\<rparr>
   \<and> \<not> isCredit receiveChain changeChain paidOutput
   \<and> imp_type (analyzeTransaction paymentInfo walletHistory receiveChain changeChain) = outgoing
   \<and> imp_value (analyzeTransaction paymentInfo walletHistory receiveChain changeChain) = - 2000
   \<and> imp_targets (analyzeTransaction paymentInfo walletHistory receiveChain changeChain)
       = [paidOutput]"
proof -
  let ?prev = "\<lparr>out_script = [], out_value = 5000, out_address = Some ''receive-0''\<rparr>"
  let ?a = "\<lparr>out_script = [], out_value = 3000, out_address = Some ''change-0''\<rparr>"
  let ?inp = "\<lparr>in_script = [], in_hash = [], in_index = 0, in_sequence = 0\<rparr>"
  have h1: "tx_ins (info_tx paymentInfo) = [?inp]"
    by (simp add: scenario_defs)
  have h2: "spentOutputs paymentInfo walletHistory = [Some ?prev]"
    by (simp add: spentOutputs_def scenario_defs)
  have h3: "out_value ?prev = 5000" by simp
  have h4: "isCredit receiveChain changeChain ?prev"
    by (simp add: isCredit_def ownedBy_def chainContainsAddress_def scenario_defs)
  have h5: "tx_outs (info_tx paymentInfo) = [?a, paidOutput]
            \<or> tx_outs (info_tx paymentInfo) = [paidOutput, ?a]"
    by (simp add: scenario_defs)
  have h6: "out_value ?a = 3000" by simp
  have h7: "isCredit receiveChain changeChain ?a"
    by (simp add: isCredit_def ownedBy_def chainContainsAddress_def scenario_defs)
  have h8: "out_value paidOutput = 1800" by (simp add: scenario_defs)
  have h9: "\<not> isCredit receiveChain changeChain paidOutput"
    by (simp add: isCredit_def ownedBy_def chainContainsAddress_def scenario_defs)
  have o: "tx_outs (info_tx paymentInfo) = [?a, paidOutput]"
    by (simp add: scenario_defs)
  from analyze_scenario [OF h1 h2 h3 h4 h5 h6 h7 h8 h9] h2 o h7 h9 show ?thesis
    by simp
qed


subsection \<open>The comparator is a total preorder, and the sort respects it\<close>

lemma typeRank_simps:
  "typeRank incoming = 0" "typeRank internal = 1" "typeRank outgoing = 2"
  by (simp_all add: typeRank_def indexOf_def IMPACT_ORDERING_def)

lemma positive_compare:
  "positive (compareByOldestAndType a b) =
     (case (imp_height a, imp_height b) of
        (Some x, Some y) \<Rightarrow> y < x \<or> (x = y \<and> typeRank (imp_type b) < typeRank (imp_type a))
      | (Some x, None) \<Rightarrow> False
      | (None, Some y) \<Rightarrow> True
      | (None, None) \<Rightarrow> typeRank (imp_type b) < typeRank (imp_type a))"
  by (auto simp: compareByOldestAndType_def js_or_def typeRank_def Let_def split: option.splits)

lemma notAfter_total: "\<not> notAfter a b \<Longrightarrow> notAfter b a"
  by (auto simp: notAfter_def positive_compare split: option.splits)

lemma notAfter_trans: "notAfter a b \<Longrightarrow> notAfter b c \<Longrightarrow> notAfter a c"
  by (auto simp: notAfter_def positive_compare split: option.splits)

lemma set_insertBy: "set (insertBy cmp x ys) = insert x (set ys)"
  by (induction ys) auto

lemma mset_insertBy: "mset (insertBy cmp x ys) = add_mset x (mset ys)"
  by (induction ys) auto

lemma mset_sortBy: "mset (sortBy cmp xs) = mset xs"
  by (induction xs) (simp_all add: sortBy_def mset_insertBy)


lemma sorted_insertBy:
  "sorted_wrt notAfter ys \<Longrightarrow> sorted_wrt notAfter (insertBy compareByOldestAndType x ys)"
proof (induction ys)
  case Nil
  show ?case by simp
next
  case (Cons y ys)
  show ?case
  proof (cases "positive (compareByOldestAndType x y)")
    case True
    then have "notAfter y x"
      using notAfter_total [of x y] by (simp add: notAfter_def)
    with Cons True show ?thesis
      by (auto simp: set_insertBy)
  next
    case False
    then have xy: "notAfter x y" by (simp add: notAfter_def)
    have "\<forall>z\<in>set ys. notAfter x z"
      using Cons.prems xy notAfter_trans by auto
    with Cons.prems xy False show ?thesis by simp
  qed
qed

lemma sorted_sortBy: "sorted_wrt notAfter (sortBy compareByOldestAndType xs)"
proof (induction xs)
  case Nil
  show ?case by (simp add: sortBy_def)
next
  case (Cons x xs)
  then show ?case
    using sorted_insertBy [of "sortBy compareByOldestAndType xs" x]
    by (simp add: sortBy_def)
qed

lemma not_positive_refl: "\<not> positive (compareByOldestAndType a a)"
  by (simp add: positive_compare split: option.splits)

lemma positive_precedes:
  assumes "i < length (sortBy compareByOldestAndType xs)"
      and "j < length (sortBy compareByOldestAndType xs)"
      and "positive (compareByOldestAndType (sortBy compareByOldestAndType xs ! j)
                       (sortBy compareByOldestAndType xs ! i))"
  shows "i < j"
proof (rule ccontr)
  assume "\<not> i < j"
  moreover have "i \<noteq> j"
    using assms(3) not_positive_refl by auto
  ultimately have "j < i" by simp
  with assms(1) have "notAfter (sortBy compareByOldestAndType xs ! j)
                        (sortBy compareByOldestAndType xs ! i)"
    using sorted_sortBy [of xs] by (simp add: sorted_wrt_iff_nth_less)
  with assms(3) show False by (simp add: notAfter_def)
qed

lemma sort_example:
  "sortBy compareByOldestAndType sampleImpacts =
     [sampleImpacts ! 3, sampleImpacts ! 2, sampleImpacts ! 1, sampleImpacts ! 0]"
  by (simp add: sampleImpacts_def sortBy_def compareByOldestAndType_def js_or_def indexOf_def
        IMPACT_ORDERING_def)


text \<open>
  Claim C2. Sorting with \<open>compareByOldestAndType\<close> rearranges the impacts so that,
  for any two positions of the result: an impact with a present height \<open>h1\<close> stands
  before an impact with a present height \<open>h2\<close> whenever \<open>h1 < h2\<close>, whatever their
  types; an impact with a present height stands before an impact whose height is absent
  (absent counts as plus infinity); and of two impacts with equal heights (both absent
  included) the one whose type comes first in the precedence
  incoming, internal, outgoing stands first.
\<close>

theorem chronological_order:
  "mset (sortBy compareByOldestAndType xs) = mset xs
     \<and> (\<forall>i < length (sortBy compareByOldestAndType xs).
        \<forall>j < length (sortBy compareByOldestAndType xs).
           (\<forall>h1 h2. imp_height (sortBy compareByOldestAndType xs ! i) = Some h1
                 \<and> imp_height (sortBy compareByOldestAndType xs ! j) = Some h2 \<and> h1 < h2
               \<longrightarrow> i < j)
         \<and> (imp_height (sortBy compareByOldestAndType xs ! i) \<noteq> None
              \<and> imp_height (sortBy compareByOldestAndType xs ! j) = None \<longrightarrow> i < j)
         \<and> (imp_height (sortBy compareByOldestAndType xs ! i)
                = imp_height (sortBy compareByOldestAndType xs ! j)
              \<and> typeRank (imp_type (sortBy compareByOldestAndType xs ! i))
                  < typeRank (imp_type (sortBy compareByOldestAndType xs ! j)) \<longrightarrow> i < j))
     \<and> typeRank incoming < typeRank internal \<and> typeRank internal < typeRank outgoing"
proof (intro conjI allI impI)
  show "mset (sortBy compareByOldestAndType xs) = mset xs"
    by (rule mset_sortBy)
next
  show "typeRank incoming < typeRank internal" and "typeRank internal < typeRank outgoing"
    by (simp_all add: typeRank_simps)
next
  fix i j h1 h2
  assume ij: "i < length (sortBy compareByOldestAndType xs)"
             "j < length (sortBy compareByOldestAndType xs)"
    and h: "imp_height (sortBy compareByOldestAndType xs ! i) = Some h1
            \<and> imp_height (sortBy compareByOldestAndType xs ! j) = Some h2 \<and> h1 < h2"
  show "i < j"
    by (rule positive_precedes [OF ij]) (simp add: positive_compare h)
next
  fix i j
  assume ij: "i < length (sortBy compareByOldestAndType xs)"
             "j < length (sortBy compareByOldestAndType xs)"
    and h: "imp_height (sortBy compareByOldestAndType xs ! i) \<noteq> None
            \<and> imp_height (sortBy compareByOldestAndType xs ! j) = None"
  show "i < j"
    by (rule positive_precedes [OF ij]) (use h in \<open>auto simp: positive_compare\<close>)
next
  fix i j
  assume ij: "i < length (sortBy compareByOldestAndType xs)"
             "j < length (sortBy compareByOldestAndType xs)"
    and h: "imp_height (sortBy compareByOldestAndType xs ! i)
              = imp_height (sortBy compareByOldestAndType xs ! j)
            \<and> typeRank (imp_type (sortBy compareByOldestAndType xs ! i))
                < typeRank (imp_type (sortBy compareByOldestAndType xs ! j))"
  show "i < j"
    by (rule positive_precedes [OF ij])
       (use h in \<open>auto simp: positive_compare split: option.splits\<close>)
qed


theorem chronological_order_witness:
  "mset (sortBy compareByOldestAndType sampleImpacts) = mset sampleImpacts
   \<and> length (sortBy compareByOldestAndType sampleImpacts) = 4
   \<and> imp_height (sortBy compareByOldestAndType sampleImpacts ! 0) = Some 5
   \<and> imp_height (sortBy compareByOldestAndType sampleImpacts ! 1) = Some 9
   \<and> imp_height (sortBy compareByOldestAndType sampleImpacts ! 2) = Some 9
   \<and> imp_height (sortBy compareByOldestAndType sampleImpacts ! 3) = None
   \<and> typeRank (imp_type (sortBy compareByOldestAndType sampleImpacts ! 1))
       < typeRank (imp_type (sortBy compareByOldestAndType sampleImpacts ! 2))"
  using chronological_order [of sampleImpacts] unfolding sort_example
  by (simp add: typeRank_simps sampleImpacts_def)

subsection \<open>The running balance\<close>
















section \<open>Properties of the bitcore client\<close>

subsection \<open>Interning\<close>

lemma toInfo_cases:
  "toInfo this r =
     (newTransactionInfo
        (case bb_transactions this (bctx_hash (bc_tx r)) of
           None \<Rightarrow> bitcoreToTransaction (bc_tx r) True | Some tx \<Rightarrow> tx)
        (bctx_hash (bc_tx r))
        (if bc_height r > 0 then Some (bc_height r) else None)
        (if bc_height r > 0 then bc_timestamp r else None),
      case bb_transactions this (bctx_hash (bc_tx r)) of
        None \<Rightarrow> this\<lparr>bb_transactions :=
                       (bb_transactions this)(bctx_hash (bc_tx r) \<mapsto>
                          bitcoreToTransaction (bc_tx r) True),
                     bb_built := bb_built this @ [bctx_hash (bc_tx r)]\<rparr>
      | Some tx \<Rightarrow> this)"
  by (simp add: toInfo_def Let_def split: option.splits)

lemma insightToInfo_cases:
  "insightToInfo sat this r =
     (newTransactionInfo
        (case bb_transactions this (ins_txid r) of
           None \<Rightarrow> insightToTransaction sat r | Some tx \<Rightarrow> tx)
        (ins_txid r)
        (if ins_blockheight r > 0 then Some (ins_blockheight r) else None)
        (if ins_blockheight r > 0 then Some (ins_time r) else None),
      case bb_transactions this (ins_txid r) of
        None \<Rightarrow> this\<lparr>bb_transactions :=
                       (bb_transactions this)(ins_txid r \<mapsto> insightToTransaction sat r),
                     bb_built := bb_built this @ [ins_txid r]\<rparr>
      | Some tx \<Rightarrow> this)"
  by (simp add: insightToInfo_def Let_def split: option.splits)

lemma intern_step:
  assumes "intern sat this x = (info, this')"
  shows "bb_transactions this' (observedId x) = Some (info_tx info)"
    and "bb_transactions this ident = Some t \<Longrightarrow> bb_transactions this' ident = Some t"
    and "bb_built this' =
           (if observedId x \<in> dom (bb_transactions this) then bb_built this
            else bb_built this @ [observedId x])"
    and "dom (bb_transactions this') = insert (observedId x) (dom (bb_transactions this))"
  using assms
  by (cases x;
      auto simp: toInfo_cases insightToInfo_cases newTransactionInfo_def notificationInfo_def
           split: option.splits)+

lemma notificationToMatch_interns:
  "snd (notificationToMatch this r) = snd (intern sat this (Live r))"
  by (simp add: notificationToMatch_def split: prod.splits sum.splits)

lemma historyToMatch_interns:
  "historyToMatch this r =
     (\<lparr>m_info = fst (intern sat this (Historical r)), m_addresses = bc_addresses r,
       m_rejected = False\<rparr>,
      snd (intern sat this (Historical r)))"
  by (simp add: historyToMatch_def split: prod.splits)

lemma intern_logAgrees:
  assumes "intern sat this x = (info, this')" and "logAgrees this"
  shows "logAgrees this'"
    and "set (bb_built this') = insert (observedId x) (set (bb_built this))"
  using assms intern_step(3,4) [OF assms(1)]
  by (auto simp: logAgrees_def)

lemma internAll_keeps:
  "internAll sat this xs = (infos, final) \<Longrightarrow> bb_transactions this ident = Some t
     \<Longrightarrow> bb_transactions final ident = Some t"
proof (induction xs arbitrary: this infos final)
  case Nil
  then show ?case by simp
next
  case (Cons x xs)
  obtain info this' where s: "intern sat this x = (info, this')"
    by (cases "intern sat this x")
  obtain rest final' where r: "internAll sat this' xs = (rest, final')"
    by (cases "internAll sat this' xs")
  from Cons.prems(1) s r have f: "final' = final" by simp
  have "bb_transactions this' ident = Some t"
    using intern_step(2) [OF s] Cons.prems(2) by simp
  from Cons.IH [OF r this] f show ?case by simp
qed

lemma internAll_length:
  "internAll sat this xs = (infos, final) \<Longrightarrow> length infos = length xs"
proof (induction xs arbitrary: this infos final)
  case Nil
  then show ?case by simp
next
  case (Cons x xs)
  obtain info this' where s: "intern sat this x = (info, this')"
    by (cases "intern sat this x")
  obtain rest final' where r: "internAll sat this' xs = (rest, final')"
    by (cases "internAll sat this' xs")
  from Cons.prems s r have "infos = info # rest" by auto
  with Cons.IH [OF r] show ?case by simp
qed

lemma internAll_cached:
  "internAll sat this xs = (infos, final) \<Longrightarrow> i < length xs
     \<Longrightarrow> bb_transactions final (observedId (xs ! i)) = Some (info_tx (infos ! i))"
proof (induction xs arbitrary: this infos final i)
  case Nil
  then show ?case by simp
next
  case (Cons x xs)
  obtain info this' where s: "intern sat this x = (info, this')"
    by (cases "intern sat this x")
  obtain rest final' where r: "internAll sat this' xs = (rest, final')"
    by (cases "internAll sat this' xs")
  from Cons.prems(1) s r have e: "infos = info # rest" "final' = final" by auto
  show ?case
  proof (cases i)
    case 0
    have "bb_transactions final' (observedId x) = Some (info_tx info)"
      using internAll_keeps [OF r intern_step(1) [OF s]] .
    with 0 e show ?thesis by simp
  next
    case (Suc k)
    with Cons.prems(2) have "k < length xs" by simp
    from Cons.IH [OF r this] Suc e show ?thesis by simp
  qed
qed

lemma internAll_log:
  "internAll sat this xs = (infos, final) \<Longrightarrow> logAgrees this
     \<Longrightarrow> logAgrees final \<and> set (bb_built final) = set (bb_built this) \<union> observedId ` set xs"
proof (induction xs arbitrary: this infos final)
  case Nil
  then show ?case by simp
next
  case (Cons x xs)
  obtain info this' where s: "intern sat this x = (info, this')"
    by (cases "intern sat this x")
  obtain rest final' where r: "internAll sat this' xs = (rest, final')"
    by (cases "internAll sat this' xs")
  from Cons.prems(1) s r have e: "final' = final" by simp
  from Cons.IH [OF r intern_logAgrees(1) [OF s Cons.prems(2)]]
       intern_logAgrees(2) [OF s Cons.prems(2)] e
  show ?case by auto
qed

lemma count_list_distinct:
  "distinct xs \<Longrightarrow> count_list xs x = (if x \<in> set xs then 1 else 0)"
  by (induction xs) auto

lemma logAgrees_new: "logAgrees newBitcoreBlockchain"
  by (simp add: logAgrees_def newBitcoreBlockchain_def)

text \<open>
  Claim C7. Starting from a fresh client, let any sequence of observations (live
  notifications, history items, insight lookups) go through the interning step. Any two
  observations of the same transaction id get the same \<open>Transaction\<close> value; a
  conversion function has run exactly once for every observed id (and for no other);
  and the cache holds, under each observed id, the one value that was returned for it,
  an entry once made never being replaced by a later observation.
\<close>

theorem interning_once:
  assumes "internAll sat newBitcoreBlockchain xs = (infos, final)"
  shows "(\<forall>i < length xs. \<forall>j < length xs.
            observedId (xs ! i) = observedId (xs ! j)
              \<longrightarrow> info_tx (infos ! i) = info_tx (infos ! j))
       \<and> (\<forall>ident. count_list (bb_built final) ident
                     = (if ident \<in> observedId ` set xs then 1 else 0))
       \<and> (\<forall>i < length xs.
            bb_transactions final (observedId (xs ! i)) = Some (info_tx (infos ! i)))
       \<and> (\<forall>this x ident t. bb_transactions this ident = Some t
              \<longrightarrow> bb_transactions (snd (intern sat this x)) ident = Some t)"
proof (intro conjI allI impI)
  fix i j
  assume "i < length xs" "j < length xs" "observedId (xs ! i) = observedId (xs ! j)"
  then show "info_tx (infos ! i) = info_tx (infos ! j)"
    using internAll_cached [OF assms, of i] internAll_cached [OF assms, of j] by simp
next
  fix ident
  from internAll_log [OF assms logAgrees_new]
  have "distinct (bb_built final)" and "set (bb_built final) = observedId ` set xs"
    by (auto simp: logAgrees_def newBitcoreBlockchain_def)
  then show "count_list (bb_built final) ident = (if ident \<in> observedId ` set xs then 1 else 0)"
    by (simp add: count_list_distinct)
next
  fix i
  assume "i < length xs"
  then show "bb_transactions final (observedId (xs ! i)) = Some (info_tx (infos ! i))"
    by (rule internAll_cached [OF assms])
next
  fix this :: BitcoreBlockchain and x ident t
  assume "bb_transactions this ident = Some t"
  then show "bb_transactions (snd (intern sat this x)) ident = Some t"
    using intern_step(2) [of sat this x "fst (intern sat this x)" "snd (intern sat this x)"]
    by simp
qed

theorem interning_once_witness:
  "length sampleObservations = 3
   \<and> observedId (sampleObservations ! 0) = observedId (sampleObservations ! 2)
   \<and> info_tx (fst (internAll (\<lambda>v. 0) newBitcoreBlockchain sampleObservations) ! 0)
       = info_tx (fst (internAll (\<lambda>v. 0) newBitcoreBlockchain sampleObservations) ! 2)
   \<and> count_list (bb_built (snd (internAll (\<lambda>v. 0) newBitcoreBlockchain sampleObservations)))
        (observedId (sampleObservations ! 2)) = 1
   \<and> bb_transactions (snd (internAll (\<lambda>v. 0) newBitcoreBlockchain sampleObservations))
        (observedId (sampleObservations ! 2))
       = Some (info_tx (fst (internAll (\<lambda>v. 0) newBitcoreBlockchain sampleObservations) ! 2))"
proof -
  let ?run = "internAll (\<lambda>v. 0) newBitcoreBlockchain sampleObservations"
  have h: "?run = (fst ?run, snd ?run)" by simp
  have len: "length sampleObservations = 3"
    by (simp add: sampleObservations_def)
  have lt: "0 < length sampleObservations" "2 < length sampleObservations"
    by (simp_all add: len)
  have same: "observedId (sampleObservations ! 0) = observedId (sampleObservations ! 2)"
    by (simp add: sampleObservations_def sampleNotification_def sampleHistory_def)
  have mem: "observedId (sampleObservations ! 2) \<in> observedId ` set sampleObservations"
    using lt(2) by (intro imageI nth_mem)
  note t = interning_once [OF h]
  have a: "info_tx (fst ?run ! 0) = info_tx (fst ?run ! 2)"
    by (rule t [THEN conjunct1, rule_format, OF lt(1) lt(2) same])
  have "count_list (bb_built (snd ?run)) (observedId (sampleObservations ! 2))
      = (if observedId (sampleObservations ! 2) \<in> observedId ` set sampleObservations
         then 1 else 0)"
    by (rule t [THEN conjunct2, THEN conjunct1, rule_format])
  then have b: "count_list (bb_built (snd ?run)) (observedId (sampleObservations ! 2)) = 1"
    by (simp only: mem if_True)
  have c: "bb_transactions (snd ?run) (observedId (sampleObservations ! 2))
             = Some (info_tx (fst ?run ! 2))"
    by (rule t [THEN conjunct2, THEN conjunct2, THEN conjunct1, rule_format, OF lt(2)])
  from len same a b c show ?thesis by (intro conjI)
qed

subsection \<open>Subscriptions\<close>

lemma fold_add_addresses:
  "fold (\<lambda>a s. s\<lparr>bb_addresses := insert a (bb_addresses s)\<rparr>) xs this
     = this\<lparr>bb_addresses := bb_addresses this \<union> set xs\<rparr>"
  by (induction xs arbitrary: this) simp_all

lemma subscribe_eq:
  "subscribe this addresses =
     this\<lparr>bb_addresses :=
            bb_addresses this \<union> set (filter (\<lambda>a. a \<notin> bb_addresses this) addresses),
          bb_socket :=
            (bb_socket this)\<lparr>sock_emitted := sock_emitted (bb_socket this)
               @ [\<lparr>em_name = ''subscribe'', em_event = ''address/transaction'',
                    em_values = [filter (\<lambda>a. a \<notin> bb_addresses this) addresses]\<rparr>]\<rparr>\<rparr>"
  by (simp add: subscribe_def Let_def fold_add_addresses socket_subscribe_def)

lemma filter_unwatched:
  "set xs \<subseteq> A \<Longrightarrow> filter (\<lambda>a. a \<notin> A) xs = []"
  by (induction xs) auto

text \<open>
  Claim C9. A call of \<open>subscribe\<close> emits one subscription, carrying exactly the given
  addresses that are not in the watched set, and adds them to the watched set (which
  then holds every given address). A call whose addresses are all watched already
  forwards none and leaves the set as it is; in particular so does calling it again with
  the same addresses.
\<close>

theorem subscribe_idempotent:
  "sock_emitted (bb_socket (subscribe this addresses))
     = sock_emitted (bb_socket this)
         @ [\<lparr>em_name = ''subscribe'', em_event = ''address/transaction'',
              em_values = [filter (\<lambda>a. a \<notin> bb_addresses this) addresses]\<rparr>]
   \<and> bb_addresses (subscribe this addresses)
       = bb_addresses this \<union> set (filter (\<lambda>a. a \<notin> bb_addresses this) addresses)
   \<and> bb_addresses (subscribe this addresses) = bb_addresses this \<union> set addresses
   \<and> (set again \<subseteq> bb_addresses this \<longrightarrow>
         sock_emitted (bb_socket (subscribe this again))
           = sock_emitted (bb_socket this)
               @ [\<lparr>em_name = ''subscribe'', em_event = ''address/transaction'',
                    em_values = [[]]\<rparr>]
         \<and> bb_addresses (subscribe this again) = bb_addresses this)
   \<and> sock_emitted (bb_socket (subscribe (subscribe this addresses) addresses))
       = sock_emitted (bb_socket (subscribe this addresses))
           @ [\<lparr>em_name = ''subscribe'', em_event = ''address/transaction'',
                em_values = [[]]\<rparr>]
   \<and> bb_addresses (subscribe (subscribe this addresses) addresses)
       = bb_addresses (subscribe this addresses)"
proof (intro conjI impI)
  show "sock_emitted (bb_socket (subscribe this addresses))
     = sock_emitted (bb_socket this)
         @ [\<lparr>em_name = ''subscribe'', em_event = ''address/transaction'',
              em_values = [filter (\<lambda>a. a \<notin> bb_addresses this) addresses]\<rparr>]"
    by (simp add: subscribe_eq)
  show "bb_addresses (subscribe this addresses)
       = bb_addresses this \<union> set (filter (\<lambda>a. a \<notin> bb_addresses this) addresses)"
    by (simp add: subscribe_eq)
  show "bb_addresses (subscribe this addresses) = bb_addresses this \<union> set addresses"
    by (auto simp: subscribe_eq)
next
  assume w: "set again \<subseteq> bb_addresses this"
  then have "filter (\<lambda>a. a \<notin> bb_addresses this) again = []"
    by (rule filter_unwatched)
  then show "sock_emitted (bb_socket (subscribe this again))
           = sock_emitted (bb_socket this)
               @ [\<lparr>em_name = ''subscribe'', em_event = ''address/transaction'',
                    em_values = [[]]\<rparr>]"
    and "bb_addresses (subscribe this again) = bb_addresses this"
    by (simp_all add: subscribe_eq)
next
  have "set addresses \<subseteq> bb_addresses (subscribe this addresses)"
    by (auto simp: subscribe_eq)
  then have e: "filter (\<lambda>a. a \<notin> bb_addresses (subscribe this addresses)) addresses = []"
    by (rule filter_unwatched)
  show "sock_emitted (bb_socket (subscribe (subscribe this addresses) addresses))
       = sock_emitted (bb_socket (subscribe this addresses))
           @ [\<lparr>em_name = ''subscribe'', em_event = ''address/transaction'',
                em_values = [[]]\<rparr>]"
    by (simp add: subscribe_eq [of "subscribe this addresses"] e)
  show "bb_addresses (subscribe (subscribe this addresses) addresses)
       = bb_addresses (subscribe this addresses)"
    by (simp add: subscribe_eq [of "subscribe this addresses"] e)
qed

theorem subscribe_idempotent_witness:
  "set [''a'', ''b''] \<subseteq> bb_addresses (subscribe newBitcoreBlockchain [''a'', ''b'', ''a''])
   \<and> sock_emitted (bb_socket (subscribe newBitcoreBlockchain [''a'', ''b'', ''a'']))
       = [\<lparr>em_name = ''subscribe'', em_event = ''address/transaction'',
            em_values = [[''a'', ''b'', ''a'']]\<rparr>]
   \<and> sock_emitted (bb_socket
         (subscribe (subscribe newBitcoreBlockchain [''a'', ''b'', ''a'']) [''a'', ''b'']))
       = [\<lparr>em_name = ''subscribe'', em_event = ''address/transaction'',
            em_values = [[''a'', ''b'', ''a'']]\<rparr>,
          \<lparr>em_name = ''subscribe'', em_event = ''address/transaction'', em_values = [[]]\<rparr>]"
proof -
  let ?s = "subscribe newBitcoreBlockchain [''a'', ''b'', ''a'']"
  have e: "sock_emitted (bb_socket ?s)
             = [\<lparr>em_name = ''subscribe'', em_event = ''address/transaction'',
                  em_values = [[''a'', ''b'', ''a'']]\<rparr>]"
    by (simp add: subscribe_eq newBitcoreBlockchain_def)
  have h: "set [''a'', ''b''] \<subseteq> bb_addresses ?s"
    by (simp add: subscribe_eq newBitcoreBlockchain_def)
  have "set [''a'', ''b''] \<subseteq> bb_addresses ?s \<longrightarrow>
          sock_emitted (bb_socket (subscribe ?s [''a'', ''b'']))
            = sock_emitted (bb_socket ?s)
                @ [\<lparr>em_name = ''subscribe'', em_event = ''address/transaction'',
                     em_values = [[]]\<rparr>]
          \<and> bb_addresses (subscribe ?s [''a'', ''b'']) = bb_addresses ?s"
    using subscribe_idempotent [of ?s "[]" "[''a'', ''b'']"] by blast
  with h have "sock_emitted (bb_socket (subscribe ?s [''a'', ''b'']))
            = sock_emitted (bb_socket ?s)
                @ [\<lparr>em_name = ''subscribe'', em_event = ''address/transaction'',
                     em_values = [[]]\<rparr>]"
    by blast
  then have "sock_emitted (bb_socket (subscribe ?s [''a'', ''b'']))
            = [\<lparr>em_name = ''subscribe'', em_event = ''address/transaction'',
                 em_values = [[''a'', ''b'', ''a'']]\<rparr>,
               \<lparr>em_name = ''subscribe'', em_event = ''address/transaction'',
                 em_values = [[]]\<rparr>]"
    by (simp only: e append_Cons append_Nil)
  with h e show ?thesis by blast
qed

subsection \<open>Heights and timestamps\<close>

lemma toInfo_exposed: "exposedHeight (fst (toInfo this r))"
  by (simp add: toInfo_cases exposedHeight_def newTransactionInfo_def)

lemma toInfo_unconfirmed:
  "bc_height r \<le> 0 \<Longrightarrow>
     info_height (fst (toInfo this r)) = None \<and> info_timestamp (fst (toInfo this r)) = None"
  by (simp add: toInfo_cases newTransactionInfo_def)

lemma history_info: "m_info (fst (historyToMatch this rh)) = fst (toInfo this rh)"
  by (simp add: historyToMatch_def split: prod.splits)

lemma notification_info:
  "fst (notificationToMatch this rn) = Inr m \<Longrightarrow>
     m_info m = fst (toInfo this (notificationInfo rn))"
  by (auto simp: notificationToMatch_def split: prod.splits sum.splits)

lemma zero_address_accepted:
  "bitcoreToAddress zeroHashAddress
     = Inr (toBase58Check (hexToBuffer (pa_hash zeroHashAddress)) 0)"
proof -
  have "pa_network zeroHashAddress = ''livenet''" and "pa_type zeroHashAddress = ''pubkeyhash''"
    by (simp_all add: zeroHashAddress_def)
  then show ?thesis
    by (simp add: bitcoreToAddress_def bitcoreToNetwork_def bitcoreToAddressVersion_def
          bitcoin_def)
qed

text \<open>
  Claim C10. Every transaction info the client produces (through \<open>toInfo\<close>, for
  notifications and history items, or through \<open>insightToInfo\<close>) has a height that is
  absent or strictly positive, and no timestamp when it has no height. A record whose
  block height is 0 or negative, such as a mempool notification given the height
  \<open>-1\<close>, is exposed without height and without timestamp, whatever timestamp the
  backend sent: a record at height 0 with a timestamp yields the same info as an
  unconfirmed one.
\<close>

theorem exposed_heights:
  "exposedHeight (fst (toInfo this r))
   \<and> exposedHeight (fst (insightToInfo sat this ri))
   \<and> exposedHeight (m_info (fst (historyToMatch this rh)))
   \<and> (\<forall>m. fst (notificationToMatch this rn) = Inr m \<longrightarrow> exposedHeight (m_info m))
   \<and> (bc_height r \<le> 0 \<longrightarrow>
         info_height (fst (toInfo this r)) = None
         \<and> info_timestamp (fst (toInfo this r)) = None)
   \<and> (ins_blockheight ri \<le> 0 \<longrightarrow>
         info_height (fst (insightToInfo sat this ri)) = None
         \<and> info_timestamp (fst (insightToInfo sat this ri)) = None)
   \<and> (nt_height rn = None \<longrightarrow>
         (\<forall>m. fst (notificationToMatch this rn) = Inr m \<longrightarrow>
            info_height (m_info m) = None \<and> info_timestamp (m_info m) = None))
   \<and> fst (toInfo this (r\<lparr>bc_height := 0, bc_timestamp := Some t\<rparr>))
       = fst (toInfo this (r\<lparr>bc_height := - 1, bc_timestamp := None\<rparr>))"
proof (intro conjI impI allI)
  show "exposedHeight (fst (toInfo this r))"
    by (rule toInfo_exposed)
  show "exposedHeight (fst (insightToInfo sat this ri))"
    by (simp add: insightToInfo_cases exposedHeight_def newTransactionInfo_def)
  show "exposedHeight (m_info (fst (historyToMatch this rh)))"
    by (simp add: history_info toInfo_exposed)
next
  fix m
  assume "fst (notificationToMatch this rn) = Inr m"
  then show "exposedHeight (m_info m)"
    by (simp add: notification_info toInfo_exposed)
next
  assume "bc_height r \<le> 0"
  then show "info_height (fst (toInfo this r)) = None"
    and "info_timestamp (fst (toInfo this r)) = None"
    by (simp_all add: toInfo_unconfirmed)
next
  assume "ins_blockheight ri \<le> 0"
  then show "info_height (fst (insightToInfo sat this ri)) = None"
    and "info_timestamp (fst (insightToInfo sat this ri)) = None"
    by (simp_all add: insightToInfo_cases newTransactionInfo_def)
next
  fix m
  assume n: "nt_height rn = None" and m: "fst (notificationToMatch this rn) = Inr m"
  from n have "bc_height (notificationInfo rn) \<le> 0"
    by (simp add: notificationInfo_def)
  then show "info_height (m_info m) = None" and "info_timestamp (m_info m) = None"
    by (simp_all add: notification_info [OF m] toInfo_unconfirmed)
next
  show "fst (toInfo this (r\<lparr>bc_height := 0, bc_timestamp := Some t\<rparr>))
       = fst (toInfo this (r\<lparr>bc_height := - 1, bc_timestamp := None\<rparr>))"
    by (simp add: toInfo_cases split: option.splits)
qed

theorem exposed_heights_witness:
  "bc_height (sampleHistory\<lparr>bc_height := 0\<rparr>) \<le> 0
   \<and> bc_timestamp (sampleHistory\<lparr>bc_height := 0\<rparr>) = Some 1200
   \<and> info_height (fst (toInfo newBitcoreBlockchain (sampleHistory\<lparr>bc_height := 0\<rparr>))) = None
   \<and> info_timestamp (fst (toInfo newBitcoreBlockchain (sampleHistory\<lparr>bc_height := 0\<rparr>))) = None
   \<and> ins_blockheight sampleInsight \<le> 0
   \<and> info_timestamp (fst (insightToInfo (\<lambda>v. 0) newBitcoreBlockchain sampleInsight)) = None
   \<and> nt_height sampleNotification = None
   \<and> (\<exists>m. fst (notificationToMatch newBitcoreBlockchain sampleNotification) = Inr m
          \<and> info_height (m_info m) = None \<and> info_timestamp (m_info m) = None)"
proof -
  have h1: "bc_height (sampleHistory\<lparr>bc_height := 0\<rparr>) \<le> 0" by simp
  have h2: "ins_blockheight sampleInsight \<le> 0" by (simp add: sampleInsight_def)
  have h3: "nt_height sampleNotification = None" by (simp add: sampleNotification_def)
  have "nt_address sampleNotification = zeroHashAddress"
    by (simp add: sampleNotification_def)
  then have "\<exists>m. fst (notificationToMatch newBitcoreBlockchain sampleNotification) = Inr m"
    by (simp add: notificationToMatch_def zero_address_accepted split: prod.splits)
  then obtain m
    where m: "fst (notificationToMatch newBitcoreBlockchain sampleNotification) = Inr m" ..
  note t = exposed_heights [of newBitcoreBlockchain "sampleHistory\<lparr>bc_height := 0\<rparr>"
             "\<lambda>v. 0" sampleInsight sampleHistory sampleNotification 0]
  from t h1 have a: "info_height (fst (toInfo newBitcoreBlockchain
                        (sampleHistory\<lparr>bc_height := 0\<rparr>))) = None"
         "info_timestamp (fst (toInfo newBitcoreBlockchain
                        (sampleHistory\<lparr>bc_height := 0\<rparr>))) = None"
    by blast+
  from t h2 have b: "info_timestamp (fst (insightToInfo (\<lambda>v. 0) newBitcoreBlockchain
                        sampleInsight)) = None"
    by blast
  from t h3 m have c: "info_height (m_info m) = None \<and> info_timestamp (m_info m) = None"
    by blast
  have d: "bc_timestamp (sampleHistory\<lparr>bc_height := 0\<rparr>) = Some 1200"
    by (simp add: sampleHistory_def)
  from h1 d a h2 b h3 m c show ?thesis by blast
qed


subsection \<open>Paging\<close>

lemma ceilDiv_small: "0 < x \<Longrightarrow> x \<le> p \<Longrightarrow> ceilDiv x p = 1"
proof -
  assume "0 < x" and "x \<le> p"
  then have "p \<le> x + p - 1" and "x + p - 1 < 2 * p" by simp_all
  then have "(x + p - 1) div p = 1"
    by (metis One_nat_def Suc_1 div_nat_eqI mult.commute nat_mult_1_right)
  then show ?thesis by (simp add: ceilDiv_def)
qed

lemma ceilDiv_step: "0 < p \<Longrightarrow> p < x \<Longrightarrow> ceilDiv x p = Suc (ceilDiv (x - p) p)"
proof -
  assume "0 < p" and "p < x"
  then have "x + p - 1 = (x - p + p - 1) + p" by simp
  then have "(x + p - 1) div p = (x - p + p - 1) div p + 1"
    using \<open>0 < p\<close> by (metis div_add_self2 less_numeral_extra(3))
  then show ?thesis by (simp add: ceilDiv_def)
qed

lemma ceilDiv_le_one: "0 < p \<Longrightarrow> x \<le> p \<Longrightarrow> ceilDiv x p \<le> 1"
  by (cases "x = 0") (simp_all add: ceilDiv_small, simp add: ceilDiv_def)

lemma ceilDiv_pos: "0 < p \<Longrightarrow> 0 < x \<Longrightarrow> 0 < ceilDiv x p"
  by (simp add: ceilDiv_def div_greater_zero_iff)

lemma nextPage_reported:
  assumes "reportsTotal socket T"
  shows "\<exists>its. nextPage socket addresses start end_height p previous =
           Inr \<lparr>pg_items = its, pg_totalCount = T, pg_from = pg_to previous,
                pg_to = min (pg_to previous + p) (pg_totalCount previous)\<rparr>"
proof -
  let ?q = "\<lparr>q_addresses = addresses, q_from = pg_to previous,
             q_to = min (pg_to previous + p) (pg_totalCount previous),
             q_start = start, q_end = end_height, q_queryMempool = True\<rparr>"
  from assms obtain r where "socket ?q = Inr r" and "h_totalCount r = T"
    unfolding reportsTotal_def by blast
  then show ?thesis
    by (simp add: nextPage_def lookupAddressHistories_def Let_def)
qed

lemma generate_continue:
  assumes "0 < p" and "reportsTotal socket T"
  shows "pg_totalCount previous = T \<Longrightarrow> pg_to previous < T \<Longrightarrow>
     \<exists>pages. generate (nextPage socket addresses start end_height p)
                (\<lambda>page. pg_to page < pg_totalCount page) previous = Some (pages, None)
       \<and> length pages = ceilDiv (T - pg_to previous) p
       \<and> (\<forall>k < length pages.
             (pg_totalCount (pages ! k) \<le> pg_to (pages ! k)) = (Suc k = length pages))"
proof (induction "T - pg_to previous" arbitrary: previous rule: less_induct)
  case less
  let ?step = "nextPage socket addresses start end_height p"
  let ?cont = "\<lambda>page :: 'a Page. pg_to page < pg_totalCount page"
  from nextPage_reported [OF assms(2), of addresses start end_height p previous] less.prems(1)
  obtain its where n: "?step previous =
      Inr \<lparr>pg_items = its, pg_totalCount = T, pg_from = pg_to previous,
           pg_to = min (pg_to previous + p) T\<rparr>"
    by auto
  let ?s = "\<lparr>pg_items = its, pg_totalCount = T, pg_from = pg_to previous,
             pg_to = min (pg_to previous + p) T\<rparr>"
  show ?case
  proof (cases "pg_to previous + p < T")
    case True
    then have to: "pg_to ?s = pg_to previous + p" by simp
    have "T - pg_to ?s < T - pg_to previous"
      using True assms(1) by simp
    moreover have "pg_totalCount ?s = T" by simp
    moreover have "pg_to ?s < T" using True by simp
    ultimately obtain rest where r: "generate ?step ?cont ?s = Some (rest, None)"
      and l: "length rest = ceilDiv (T - pg_to ?s) p"
      and c: "\<forall>k < length rest.
                (pg_totalCount (rest ! k) \<le> pg_to (rest ! k)) = (Suc k = length rest)"
      using less.hyps [of ?s] by blast
    have g: "generate ?step ?cont previous = Some (?s # rest, None)"
      by (subst generate.simps) (use r True in \<open>simp add: n\<close>)
    have "ceilDiv (T - pg_to previous) p = Suc (ceilDiv (T - pg_to previous - p) p)"
      using True assms(1) by (intro ceilDiv_step) simp_all
    with l to have len: "length (?s # rest) = ceilDiv (T - pg_to previous) p"
      by (simp add: diff_diff_left)
    have "(pg_totalCount ((?s # rest) ! k) \<le> pg_to ((?s # rest) ! k))
            = (Suc k = length (?s # rest))" if "k < length (?s # rest)" for k
    proof (cases k)
      case 0
      have "0 < length rest"
        using l True assms(1) by (simp add: ceilDiv_pos)
      with 0 True show ?thesis by simp
    next
      case (Suc m)
      with that c show ?thesis by simp
    qed
    with g len show ?thesis by blast
  next
    case False
    then have to: "pg_to ?s = T" by simp
    have "\<not> min (pg_to previous + p) T < T" using False by simp
    then have g: "generate ?step ?cont previous = Some ([?s], None)"
      by (subst generate.simps) (simp add: n)
    have "ceilDiv (T - pg_to previous) p = 1"
      using False less.prems(2) by (intro ceilDiv_small) simp_all
    with g False show ?thesis by simp
  qed
qed


lemma nextPage_fixed:
  "nextPage (fixedHistory history) addresses start end_height p previous =
     Inr \<lparr>pg_items = take (min (pg_to previous + p) (pg_totalCount previous) - pg_to previous)
                        (drop (pg_to previous) history),
          pg_totalCount = length history, pg_from = pg_to previous,
          pg_to = min (pg_to previous + p) (pg_totalCount previous)\<rparr>"
  by (simp add: nextPage_def lookupAddressHistories_def fixedHistory_def Let_def)

lemma reportsTotal_fixed: "reportsTotal (fixedHistory history) (length history)"
  by (simp add: reportsTotal_def fixedHistory_def)

lemma generate_items:
  assumes "0 < p"
  shows "pg_totalCount previous = length history \<Longrightarrow> pg_to previous < length history \<Longrightarrow>
     \<exists>pages. generate (nextPage (fixedHistory history) addresses start end_height p)
                (\<lambda>page. pg_to page < pg_totalCount page) previous = Some (pages, None)
       \<and> concat (map pg_items pages) = drop (pg_to previous) history"
proof (induction "length history - pg_to previous" arbitrary: previous rule: less_induct)
  case less
  let ?T = "length history"
  let ?step = "nextPage (fixedHistory history) addresses start end_height p"
  let ?cont = "\<lambda>page :: 'a Page. pg_to page < pg_totalCount page"
  show ?case
  proof (cases "pg_to previous + p < ?T")
    case True
    let ?s = "\<lparr>pg_items = take p (drop (pg_to previous) history), pg_totalCount = ?T,
               pg_from = pg_to previous, pg_to = pg_to previous + p\<rparr>"
    have n: "?step previous = Inr ?s"
      using True less.prems(1) by (simp add: nextPage_fixed)
    have "?T - pg_to ?s < ?T - pg_to previous"
      using True assms by simp
    moreover have "pg_totalCount ?s = ?T" by simp
    moreover have "pg_to ?s < ?T" using True by simp
    ultimately obtain rest where r: "generate ?step ?cont ?s = Some (rest, None)"
      and c: "concat (map pg_items rest) = drop (pg_to ?s) history"
      using less.hyps [of ?s] by blast
    have g: "generate ?step ?cont previous = Some (?s # rest, None)"
      by (subst generate.simps) (use r True in \<open>simp add: n\<close>)
    have "take p (drop (pg_to previous) history) @ drop (pg_to previous + p) history
            = drop (pg_to previous) history"
      by (metis add.commute append_take_drop_id drop_drop)
    with g c show ?thesis by simp
  next
    case False
    let ?s = "\<lparr>pg_items = drop (pg_to previous) history, pg_totalCount = ?T,
               pg_from = pg_to previous, pg_to = ?T\<rparr>"
    have n: "?step previous = Inr ?s"
      using False less.prems by (simp add: nextPage_fixed)
    have g: "generate ?step ?cont previous = Some ([?s], None)"
      by (subst generate.simps) (simp add: n)
    then show ?thesis by simp
  qed
qed

lemma first_page:
  "nextPage socket addresses start end_height p (initialPage p) = Inr s \<Longrightarrow>
     pg_from s = 0 \<and> pg_to s = p"
  by (auto simp: nextPage_def initialPage_def Let_def split: sum.splits)

lemma pages_reported:
  assumes "0 < p" and "reportsTotal socket T"
  shows "\<exists>pages. lookupAllAddressHistories socket addresses start end_height p
                    = Some (pages, None)
           \<and> length pages = max 1 (ceilDiv T p)
           \<and> pg_from (hd pages) = 0 \<and> pg_to (hd pages) = p
           \<and> (\<forall>k < length pages.
                 (pg_totalCount (pages ! k) \<le> pg_to (pages ! k)) = (Suc k = length pages))"
proof -
  let ?step = "nextPage socket addresses start end_height p"
  let ?cont = "\<lambda>page :: 'a Page. pg_to page < pg_totalCount page"
  from nextPage_reported [OF assms(2), of addresses start end_height p "initialPage p"]
  obtain its where n: "?step (initialPage p) =
      Inr \<lparr>pg_items = its, pg_totalCount = T, pg_from = 0, pg_to = p\<rparr>"
    by (auto simp: initialPage_def)
  let ?s = "\<lparr>pg_items = its, pg_totalCount = T, pg_from = 0, pg_to = p\<rparr>"
  show ?thesis
  proof (cases "p < T")
    case True
    then obtain rest where r: "generate ?step ?cont ?s = Some (rest, None)"
      and l: "length rest = ceilDiv (T - pg_to ?s) p"
      and c: "\<forall>k < length rest.
                (pg_totalCount (rest ! k) \<le> pg_to (rest ! k)) = (Suc k = length rest)"
      using generate_continue [OF assms, of ?s addresses start end_height] by auto
    have g: "lookupAllAddressHistories socket addresses start end_height p
               = Some (?s # rest, None)"
      unfolding lookupAllAddressHistories_def
      by (subst generate.simps) (use r True in \<open>simp add: n\<close>)
    have cd: "ceilDiv T p = Suc (ceilDiv (T - p) p)"
      using True assms(1) by (rule ceilDiv_step [rotated])
    with l have len: "length (?s # rest) = max 1 (ceilDiv T p)" by simp
    have pos: "0 < length rest"
      using l True assms(1) by (simp add: ceilDiv_pos)
    have "(pg_totalCount ((?s # rest) ! k) \<le> pg_to ((?s # rest) ! k))
            = (Suc k = length (?s # rest))" if "k < length (?s # rest)" for k
    proof (cases k)
      case 0
      with pos True show ?thesis by simp
    next
      case (Suc m)
      with that c show ?thesis by simp
    qed
    with g len show ?thesis by auto
  next
    case False
    have g: "lookupAllAddressHistories socket addresses start end_height p
               = Some ([?s], None)"
      unfolding lookupAllAddressHistories_def
      by (subst generate.simps) (use False in \<open>simp add: n\<close>)
    have "ceilDiv T p \<le> 1"
      using assms(1) False by (intro ceilDiv_le_one) simp_all
    then have "max 1 (ceilDiv T p) = 1" by simp
    with g False show ?thesis by simp
  qed
qed

lemma pages_fixed:
  assumes "0 < p"
  shows "\<exists>pages. lookupAllAddressHistories (fixedHistory history) addresses start end_height p
                    = Some (pages, None)
           \<and> concat (map pg_items pages) = history"
proof -
  let ?T = "length history"
  let ?step = "nextPage (fixedHistory history) addresses start end_height p"
  let ?cont = "\<lambda>page :: 'a Page. pg_to page < pg_totalCount page"
  let ?s = "\<lparr>pg_items = take p history, pg_totalCount = ?T, pg_from = 0, pg_to = p\<rparr>"
  have n: "?step (initialPage p) = Inr ?s"
    by (simp add: nextPage_fixed initialPage_def)
  show ?thesis
  proof (cases "p < ?T")
    case True
    then obtain rest where r: "generate ?step ?cont ?s = Some (rest, None)"
      and c: "concat (map pg_items rest) = drop (pg_to ?s) history"
      using generate_items [OF assms, of ?s history addresses start end_height] by auto
    have g: "lookupAllAddressHistories (fixedHistory history) addresses start end_height p
               = Some (?s # rest, None)"
      unfolding lookupAllAddressHistories_def
      by (subst generate.simps) (use r True in \<open>simp add: n\<close>)
    with c show ?thesis by simp
  next
    case False
    have g: "lookupAllAddressHistories (fixedHistory history) addresses start end_height p
               = Some ([?s], None)"
      unfolding lookupAllAddressHistories_def
      by (subst generate.simps) (use False in \<open>simp add: n\<close>)
    with False show ?thesis by simp
  qed
qed

text \<open>
  Claim C3, as the code has it. For every page length above zero and every backend that
  always reports the same total count, \<open>lookupAllAddressHistories\<close> finishes without
  error after \<open>ceil(totalCount / pageLength)\<close> pages, but never fewer than one: the
  first request, for \<open>[0, pageLength)\<close>, is made before any total is known. Every
  page but the last has \<open>to\<close> below the total it reports, and the last has \<open>to\<close> at
  or above it. When the backend serves a fixed history by index range, the pages' items
  in order are that history, whatever the page length.
\<close>

theorem pagination_pages:
  assumes "0 < pageLength"
  shows "(reportsTotal socket totalCount \<longrightarrow>
            (\<exists>pages. lookupAllAddressHistories socket addresses start end_height pageLength
                        = Some (pages, None)
               \<and> length pages = max 1 (ceilDiv totalCount pageLength)
               \<and> pg_from (hd pages) = 0 \<and> pg_to (hd pages) = pageLength
               \<and> (\<forall>k < length pages.
                     (pg_totalCount (pages ! k) \<le> pg_to (pages ! k))
                       = (Suc k = length pages))))
       \<and> (\<exists>pages. lookupAllAddressHistories (fixedHistory history) addresses start
                      end_height pageLength = Some (pages, None)
             \<and> length pages = max 1 (ceilDiv (length history) pageLength)
             \<and> concat (map pg_items pages) = history)"
proof (intro conjI impI)
  assume "reportsTotal socket totalCount"
  with assms show "\<exists>pages. lookupAllAddressHistories socket addresses start end_height
                      pageLength = Some (pages, None)
               \<and> length pages = max 1 (ceilDiv totalCount pageLength)
               \<and> pg_from (hd pages) = 0 \<and> pg_to (hd pages) = pageLength
               \<and> (\<forall>k < length pages.
                     (pg_totalCount (pages ! k) \<le> pg_to (pages ! k))
                       = (Suc k = length pages))"
    by (rule pages_reported)
next
  from pages_reported [OF assms reportsTotal_fixed, of history addresses start end_height]
  obtain pages where a: "lookupAllAddressHistories (fixedHistory history) addresses start
                      end_height pageLength = Some (pages, None)"
    and b: "length pages = max 1 (ceilDiv (length history) pageLength)"
    by blast
  from pages_fixed [OF assms, of history addresses start end_height] a
  have "concat (map pg_items pages) = history" by auto
  with a b show "\<exists>pages. lookupAllAddressHistories (fixedHistory history) addresses start
                      end_height pageLength = Some (pages, None)
             \<and> length pages = max 1 (ceilDiv (length history) pageLength)
             \<and> concat (map pg_items pages) = history"
    by blast
qed

theorem pagination_pages_witness:
  "(0::nat) < 2
   \<and> reportsTotal (fixedHistory [10, 20, 30, 40, 50 :: nat]) 5
   \<and> (\<exists>pages. lookupAllAddressHistories (fixedHistory [10, 20, 30, 40, 50 :: nat]) []
                  None None 2 = Some (pages, None)
         \<and> length pages = 3
         \<and> concat (map pg_items pages) = [10, 20, 30, 40, 50])"
proof -
  have p: "(0::nat) < 2" by simp
  have r: "reportsTotal (fixedHistory [10, 20, 30, 40, 50 :: nat]) 5"
    by (simp add: reportsTotal_def fixedHistory_def)
  have c: "max 1 (ceilDiv (length [10, 20, 30, 40, 50 :: nat]) 2) = 3"
    by (simp add: ceilDiv_def)
  from pagination_pages [OF p, of "fixedHistory [10, 20, 30, 40, 50 :: nat]" 5 "[]" None None
         "[10, 20, 30, 40, 50 :: nat]"]
  have "\<exists>pages. lookupAllAddressHistories (fixedHistory [10, 20, 30, 40, 50 :: nat]) []
                  None None 2 = Some (pages, None)
         \<and> length pages = max 1 (ceilDiv (length [10, 20, 30, 40, 50 :: nat]) 2)
         \<and> concat (map pg_items pages) = [10, 20, 30, 40, 50]"
    by (rule conjunct2)
  with p r show ?thesis
    unfolding c by (intro conjI)
qed

text \<open>
  Claim C3 as stated fails for an empty history: the total count is 0, so
  \<open>ceil(totalCount / pageLength)\<close> is 0, yet one (empty) page is emitted.
\<close>

theorem pagination_empty_counterexample:
  "map_option (\<lambda>r. length (fst r))
     (lookupAllAddressHistories (fixedHistory ([] :: nat list)) [] None None 100) = Some 1
   \<and> ceilDiv (length ([] :: nat list)) 100 = 0"
  unfolding lookupAllAddressHistories_def
  by (subst generate.simps)
     (simp add: nextPage_fixed initialPage_def ceilDiv_def)


subsection \<open>The address adapter\<close>

text \<open>Unfolding by one step at a numeral, for evaluating the hash of a concrete message.\<close>

lemma replicate_num: "replicate (numeral k) x = x # replicate (pred_numeral k) x"
  by (subst numeral_eq_Suc [of k]) (rule replicate.simps(2))

lemma chunks_num: "chunks (numeral k) ws = take 16 ws # chunks (pred_numeral k) (drop 16 ws)"
  by (subst numeral_eq_Suc [of k]) (rule chunks.simps(2))

lemma bigEndian_num:
  "bigEndian (numeral k) x = bigEndian (pred_numeral k) (x div 256) @ [x mod 256]"
  by (subst numeral_eq_Suc [of k]) (rule bigEndian.simps(2))

lemmas sha256_eval =
  sha256_def pad_def compress_def schedule_def K256_def H256_def nextWord_def
  ssig0_def ssig1_def bsig0_def bsig1_def ch_def maj_def rotr_def shr_def add32_def not32_def
  Let_def replicate_num chunks_num bigEndian_num

lemma zero_hash_bytes: "hexToBuffer (pa_hash zeroHashAddress) = replicate 20 0"
  by (simp add: zeroHashAddress_def hexDigit_def replicate_num)

lemma sha256_zero_payload:
  "sha256 (0 # replicate 20 0) =
     [201, 2, 50, 88, 107, 128, 31, 149, 88, 167, 111, 47, 150, 62, 204, 216,
      49, 217, 254, 103, 117, 228, 200, 241, 68, 107, 35, 49, 170, 33, 50, 242]"
  by (simp add: sha256_eval)

lemma sha256_zero_digest:
  "sha256 [201, 2, 50, 88, 107, 128, 31, 149, 88, 167, 111, 47, 150, 62, 204, 216,
           49, 217, 254, 103, 117, 228, 200, 241, 68, 107, 35, 49, 170, 33, 50, 242] =
     [148, 160, 9, 17, 196, 218, 39, 249, 39, 23, 39, 255, 167, 161, 77, 141,
      85, 136, 252, 15, 255, 153, 100, 52, 14, 196, 6, 95, 56, 126, 98, 43]"
  by (simp add: sha256_eval)

lemma base58_zero_payload:
  "base58 ((0 # replicate 20 0) @ [148, 160, 9, 17]) = ''1111111111111111111114oLvT2''"
  by (simp add: base58_def replicate_num BASE58_def)

lemma zero_address_string:
  "toBase58Check (replicate 20 0) 0 = ''1111111111111111111114oLvT2''"
  unfolding toBase58Check_def sha256_zero_payload sha256_zero_digest
  using base58_zero_payload by simp

lemma unknown_network:
  "s \<noteq> ''livenet'' \<Longrightarrow> s \<noteq> ''testnet'' \<Longrightarrow>
     bitcoreToNetwork s
       = Inl (TypeError (''Unknown bitcore network '' @ [CHR 0x27] @ s @ [CHR 0x27]))"
  by (simp add: bitcoreToNetwork_def)

lemma known_network:
  "bitcoreToNetwork ''livenet'' = Inr bitcoin" "bitcoreToNetwork ''testnet'' = Inr testnet"
  by (simp_all add: bitcoreToNetwork_def)

lemma unknown_version:
  "s \<noteq> ''pubkeyhash'' \<Longrightarrow> s \<noteq> ''scripthash'' \<Longrightarrow>
     bitcoreToAddressVersion n s
       = Inl (TypeError (''Unknown bitcore address version '' @ [CHR 0x27] @ s @ [CHR 0x27]))"
  by (simp add: bitcoreToAddressVersion_def)

lemma known_version:
  "bitcoreToAddressVersion n ''pubkeyhash'' = Inr (net_pubKeyHash n)"
  "bitcoreToAddressVersion n ''scripthash'' = Inr (net_scriptHash n)"
  by (simp_all add: bitcoreToAddressVersion_def)

text \<open>
  Claim C8. \<open>bitcoreToAddress\<close> throws a \<open>TypeError\<close> whenever the network of the
  descriptor is neither \<open>livenet\<close> nor \<open>testnet\<close>, or its type is neither
  \<open>pubkeyhash\<close> nor \<open>scripthash\<close>: no network or version is put in their place.
  For the four recognised combinations it returns the base58-check encoding of the
  decoded hash under the version byte of that network and type (0 and 5 on livenet, 111
  and 196 on testnet). For livenet, pubkeyhash and a hash of twenty zero bytes the
  result is the all-zero mainnet address \<open>1111111111111111111114oLvT2\<close>.
\<close>

theorem address_adapter:
  "(pa_network r \<notin> {''livenet'', ''testnet''} \<or> pa_type r \<notin> {''pubkeyhash'', ''scripthash''}
      \<longrightarrow> (\<exists>msg. bitcoreToAddress r = Inl (TypeError msg)))
   \<and> (pa_network r \<notin> {''livenet'', ''testnet''}
      \<longrightarrow> bitcoreToAddress r
            = Inl (TypeError (''Unknown bitcore network '' @ [CHR 0x27] @ pa_network r
                                @ [CHR 0x27])))
   \<and> (pa_network r \<in> {''livenet'', ''testnet''}
        \<and> pa_type r \<notin> {''pubkeyhash'', ''scripthash''}
      \<longrightarrow> bitcoreToAddress r
            = Inl (TypeError (''Unknown bitcore address version '' @ [CHR 0x27] @ pa_type r
                                @ [CHR 0x27])))
   \<and> (pa_network r = ''livenet'' \<and> pa_type r = ''pubkeyhash''
      \<longrightarrow> bitcoreToAddress r = Inr (toBase58Check (hexToBuffer (pa_hash r)) 0))
   \<and> (pa_network r = ''livenet'' \<and> pa_type r = ''scripthash''
      \<longrightarrow> bitcoreToAddress r = Inr (toBase58Check (hexToBuffer (pa_hash r)) 5))
   \<and> (pa_network r = ''testnet'' \<and> pa_type r = ''pubkeyhash''
      \<longrightarrow> bitcoreToAddress r = Inr (toBase58Check (hexToBuffer (pa_hash r)) 111))
   \<and> (pa_network r = ''testnet'' \<and> pa_type r = ''scripthash''
      \<longrightarrow> bitcoreToAddress r = Inr (toBase58Check (hexToBuffer (pa_hash r)) 196))
   \<and> bitcoreToAddress zeroHashAddress = Inr ''1111111111111111111114oLvT2''"
proof (intro conjI impI)
  assume "pa_network r \<notin> {''livenet'', ''testnet''}"
  then show "bitcoreToAddress r
            = Inl (TypeError (''Unknown bitcore network '' @ [CHR 0x27] @ pa_network r
                                @ [CHR 0x27]))"
    by (simp add: bitcoreToAddress_def unknown_network)
next
  assume "pa_network r \<in> {''livenet'', ''testnet''}
        \<and> pa_type r \<notin> {''pubkeyhash'', ''scripthash''}"
  then show "bitcoreToAddress r
            = Inl (TypeError (''Unknown bitcore address version '' @ [CHR 0x27] @ pa_type r
                                @ [CHR 0x27]))"
    by (auto simp: bitcoreToAddress_def known_network unknown_version)
next
  assume "pa_network r \<notin> {''livenet'', ''testnet''}
            \<or> pa_type r \<notin> {''pubkeyhash'', ''scripthash''}"
  then show "\<exists>msg. bitcoreToAddress r = Inl (TypeError msg)"
    by (cases "pa_network r \<in> {''livenet'', ''testnet''}")
       (auto simp: bitcoreToAddress_def known_network unknown_network unknown_version)
next
  assume "pa_network r = ''livenet'' \<and> pa_type r = ''pubkeyhash''"
  then show "bitcoreToAddress r = Inr (toBase58Check (hexToBuffer (pa_hash r)) 0)"
    by (simp add: bitcoreToAddress_def known_network known_version bitcoin_def)
next
  assume "pa_network r = ''livenet'' \<and> pa_type r = ''scripthash''"
  then show "bitcoreToAddress r = Inr (toBase58Check (hexToBuffer (pa_hash r)) 5)"
    by (simp add: bitcoreToAddress_def known_network known_version bitcoin_def)
next
  assume "pa_network r = ''testnet'' \<and> pa_type r = ''pubkeyhash''"
  then show "bitcoreToAddress r = Inr (toBase58Check (hexToBuffer (pa_hash r)) 111)"
    by (simp add: bitcoreToAddress_def known_network known_version testnet_def)
next
  assume "pa_network r = ''testnet'' \<and> pa_type r = ''scripthash''"
  then show "bitcoreToAddress r = Inr (toBase58Check (hexToBuffer (pa_hash r)) 196)"
    by (simp add: bitcoreToAddress_def known_network known_version testnet_def)
next
  show "bitcoreToAddress zeroHashAddress = Inr ''1111111111111111111114oLvT2''"
    by (simp only: zero_address_accepted zero_hash_bytes zero_address_string)
qed

theorem address_adapter_witness:
  "pa_network (zeroHashAddress\<lparr>pa_network := ''regtest''\<rparr>) \<notin> {''livenet'', ''testnet''}
   \<and> bitcoreToAddress (zeroHashAddress\<lparr>pa_network := ''regtest''\<rparr>)
       = Inl (TypeError (''Unknown bitcore network '' @ [CHR 0x27] @ ''regtest'' @ [CHR 0x27]))
   \<and> pa_network (zeroHashAddress\<lparr>pa_type := ''witness''\<rparr>) \<in> {''livenet'', ''testnet''}
   \<and> pa_type (zeroHashAddress\<lparr>pa_type := ''witness''\<rparr>) \<notin> {''pubkeyhash'', ''scripthash''}
   \<and> bitcoreToAddress (zeroHashAddress\<lparr>pa_type := ''witness''\<rparr>)
       = Inl (TypeError (''Unknown bitcore address version '' @ [CHR 0x27] @ ''witness''
                         @ [CHR 0x27]))
   \<and> pa_network zeroHashAddress = ''livenet'' \<and> pa_type zeroHashAddress = ''pubkeyhash''
   \<and> bitcoreToAddress zeroHashAddress = Inr (toBase58Check (replicate 20 0) 0)"
proof -
  have n: "pa_network (zeroHashAddress\<lparr>pa_network := ''regtest''\<rparr>) \<notin> {''livenet'', ''testnet''}"
    by simp
  have t: "pa_network (zeroHashAddress\<lparr>pa_type := ''witness''\<rparr>) \<in> {''livenet'', ''testnet''}
           \<and> pa_type (zeroHashAddress\<lparr>pa_type := ''witness''\<rparr>)
                \<notin> {''pubkeyhash'', ''scripthash''}"
    by (simp add: zeroHashAddress_def)
  have z: "pa_network zeroHashAddress = ''livenet'' \<and> pa_type zeroHashAddress = ''pubkeyhash''"
    by (simp add: zeroHashAddress_def)
  have "bitcoreToAddress (zeroHashAddress\<lparr>pa_network := ''regtest''\<rparr>)
          = Inl (TypeError (''Unknown bitcore network '' @ [CHR 0x27]
                   @ pa_network (zeroHashAddress\<lparr>pa_network := ''regtest''\<rparr>) @ [CHR 0x27]))"
    by (rule address_adapter [of "zeroHashAddress\<lparr>pa_network := ''regtest''\<rparr>",
          THEN conjunct2, THEN conjunct1, rule_format, OF n])
  then have a: "bitcoreToAddress (zeroHashAddress\<lparr>pa_network := ''regtest''\<rparr>)
             = Inl (TypeError (''Unknown bitcore network '' @ [CHR 0x27] @ ''regtest''
                      @ [CHR 0x27]))"
    by simp
  have "bitcoreToAddress (zeroHashAddress\<lparr>pa_type := ''witness''\<rparr>)
          = Inl (TypeError (''Unknown bitcore address version '' @ [CHR 0x27]
                   @ pa_type (zeroHashAddress\<lparr>pa_type := ''witness''\<rparr>) @ [CHR 0x27]))"
    by (rule address_adapter [of "zeroHashAddress\<lparr>pa_type := ''witness''\<rparr>",
          THEN conjunct2, THEN conjunct2, THEN conjunct1, rule_format, OF t])
  then have b: "bitcoreToAddress (zeroHashAddress\<lparr>pa_type := ''witness''\<rparr>)
             = Inl (TypeError (''Unknown bitcore address version '' @ [CHR 0x27] @ ''witness''
                         @ [CHR 0x27]))"
    by simp
  have "bitcoreToAddress zeroHashAddress
          = Inr (toBase58Check (hexToBuffer (pa_hash zeroHashAddress)) 0)"
    by (rule address_adapter [of zeroHashAddress,
          THEN conjunct2, THEN conjunct2, THEN conjunct2, THEN conjunct1, rule_format, OF z])
  then have c: "bitcoreToAddress zeroHashAddress = Inr (toBase58Check (replicate 20 0) 0)"
    by (simp only: zero_hash_bytes)
  from n a t b z c show ?thesis by (intro conjI) simp_all
qed


end
